theory Spec2Isabelle
  imports Main "HOL-Library.Word" "HOL-Library.Sublist"
begin

section \<open>JavaScript strings\<close>

text \<open>
  A JavaScript string is a sequence of 16-bit code units. String literals of the source
  are ASCII unless noted, and are written through \<open>js\<close>, which widens each character to a
  code unit.
\<close>

type_synonym jsstring = "16 word list"

definition ch :: "char \<Rightarrow> 16 word" where
  "ch c = of_nat (of_char c)"

definition js :: "string \<Rightarrow> jsstring" where
  "js s = map ch s"

text \<open>
  \<open>text.replace(/c/g, r)\<close> for a one-character pattern \<open>c\<close> and a replacement \<open>r\<close> without
  \<open>$\<close>: every occurrence of \<open>c\<close> becomes \<open>r\<close>, everything else is kept.
\<close>

definition replace_g :: "16 word \<Rightarrow> jsstring \<Rightarrow> jsstring \<Rightarrow> jsstring" where
  "replace_g c r text = concat (map (\<lambda>x. if x = c then r else [x]) text)"

section \<open>White space and \<open>trim\<close>\<close>

text \<open>
  \<open>String.prototype.trim\<close> removes leading and trailing white space and line terminators:
  TAB, LF, VT, FF, CR, SPACE, NBSP, U+1680, U+2000 to U+200A, U+2028, U+2029, U+202F,
  U+205F, U+3000 and U+FEFF.
\<close>

definition isWhiteSpace :: "16 word \<Rightarrow> bool" where
  "isWhiteSpace c =
     (c \<in> set [0x09, 0x0A, 0x0B, 0x0C, 0x0D, 0x20, 0xA0, 0x1680, 0x2028, 0x2029,
                0x202F, 0x205F, 0x3000, 0xFEFF]
      \<or> (0x2000 \<le> c \<and> c \<le> 0x200A))"

definition trim :: "jsstring \<Rightarrow> jsstring" where
  "trim str = rev (dropWhile isWhiteSpace (rev (dropWhile isWhiteSpace str)))"

section \<open>Numbers in template literals\<close>

text \<open>
  The numbers this panel handles (the slider position, pixel sizes, the resolution, the
  layer count) are modelled as integers; \<open>Number\<close> of the slider's value is that
  integer, \<open>Math.round\<close> is the identity on it, and a template literal prints it in
  decimal, with a minus sign when negative (as JavaScript does for a magnitude below
  \<open>10\<^sup>2\<^sup>1\<close>).
\<close>

type_synonym jsnumber = int

fun digits :: "nat \<Rightarrow> jsstring" where
  "digits n = (if n < 10 then [of_nat (48 + n)] else digits (n div 10) @ [of_nat (48 + n mod 10)])"

declare digits.simps [simp del]

definition numberToString :: "jsnumber \<Rightarrow> jsstring" where
  "numberToString i = (if i < 0 then ch CHR ''-'' # digits (nat (- i)) else digits (nat i))"

section \<open>Errors\<close>

datatype js_error = JsError (error_name: jsstring) (message: jsstring)

text \<open>The error \<open>encodeURIComponent\<close> throws; the message text is the engine's.\<close>

definition URIError :: js_error where
  "URIError = JsError (js ''URIError'') (js ''URI malformed'')"

section \<open>encodeURIComponent\<close>

definition isHighSurrogate :: "16 word \<Rightarrow> bool" where
  "isHighSurrogate c = (0xD800 \<le> c \<and> c \<le> 0xDBFF)"

definition isLowSurrogate :: "16 word \<Rightarrow> bool" where
  "isLowSurrogate c = (0xDC00 \<le> c \<and> c \<le> 0xDFFF)"

definition codePoint :: "16 word \<Rightarrow> 16 word \<Rightarrow> nat" where
  "codePoint hi lo = 0x10000 + (unat hi - 0xD800) * 0x400 + (unat lo - 0xDC00)"

text \<open>The UTF-8 octets of a code point.\<close>

definition utf8 :: "nat \<Rightarrow> 8 word list" where
  "utf8 cp =
     (if cp < 0x80 then [of_nat cp]
      else if cp < 0x800 then [of_nat (0xC0 + cp div 0x40), of_nat (0x80 + cp mod 0x40)]
      else if cp < 0x10000 then
        [of_nat (0xE0 + cp div 0x1000), of_nat (0x80 + (cp div 0x40) mod 0x40),
         of_nat (0x80 + cp mod 0x40)]
      else
        [of_nat (0xF0 + cp div 0x40000), of_nat (0x80 + (cp div 0x1000) mod 0x40),
         of_nat (0x80 + (cp div 0x40) mod 0x40), of_nat (0x80 + cp mod 0x40)])"

text \<open>
  The characters \<open>encodeURIComponent\<close> leaves alone: letters, digits and
  \<open>- _ . ! ~ * ' ( )\<close>.
\<close>

definition uriUnescaped :: "16 word \<Rightarrow> bool" where
  "uriUnescaped c =
     ((0x41 \<le> c \<and> c \<le> 0x5A) \<or> (0x61 \<le> c \<and> c \<le> 0x7A) \<or> (0x30 \<le> c \<and> c \<le> 0x39)
      \<or> c \<in> set [0x2D, 0x5F, 0x2E, 0x21, 0x7E, 0x2A, 0x27, 0x28, 0x29])"

definition hexDigit :: "nat \<Rightarrow> 16 word" where
  "hexDigit n = (if n < 10 then of_nat (48 + n) else of_nat (55 + n))"

definition percentOctet :: "8 word \<Rightarrow> jsstring" where
  "percentOctet b = [0x25, hexDigit (unat b div 16), hexDigit (unat b mod 16)]"

definition percentOctets :: "8 word list \<Rightarrow> jsstring" where
  "percentOctets bs = concat (map percentOctet bs)"

definition prepend :: "jsstring \<Rightarrow> js_error + jsstring \<Rightarrow> js_error + jsstring" where
  "prepend xs r = (case r of Inl err \<Rightarrow> Inl err | Inr ys \<Rightarrow> Inr (xs @ ys))"

text \<open>
  The built-in, code unit by code unit: an unreserved character is kept; any other code
  point is written as the percent-escaped octets of its UTF-8 form; a surrogate that is
  not half of a pair makes the call throw \<open>URIError\<close>.
\<close>

fun encodeURIComponent :: "jsstring \<Rightarrow> js_error + jsstring" where
  "encodeURIComponent [] = Inr []"
| "encodeURIComponent (c # cs) =
     (if uriUnescaped c then prepend [c] (encodeURIComponent cs)
      else if \<not> isHighSurrogate c \<and> \<not> isLowSurrogate c then
        prepend (percentOctets (utf8 (unat c))) (encodeURIComponent cs)
      else if isLowSurrogate c then Inl URIError
      else
        (case cs of
           [] \<Rightarrow> Inl URIError
         | d # ds \<Rightarrow>
             if isLowSurrogate d then
               prepend (percentOctets (utf8 (codePoint c d))) (encodeURIComponent ds)
             else Inl URIError))"

text \<open>\<open>String.prototype.isWellFormed\<close>: no surrogate outside a pair.\<close>

fun isWellFormed :: "jsstring \<Rightarrow> bool" where
  "isWellFormed [] = True"
| "isWellFormed (c # cs) =
     (if \<not> isHighSurrogate c \<and> \<not> isLowSurrogate c then isWellFormed cs
      else if isLowSurrogate c then False
      else (case cs of [] \<Rightarrow> False | d # ds \<Rightarrow> isLowSurrogate d \<and> isWellFormed ds))"

text \<open>
  A string that holds no surrogate at all.
\<close>

definition noSurrogate :: "jsstring \<Rightarrow> bool" where
  "noSurrogate str = list_all (\<lambda>c. \<not> isHighSurrogate c \<and> \<not> isLowSurrogate c) str"

section \<open>The panel: tables, session state, controls\<close>

definition MODEL_LABELS :: "(jsstring \<times> jsstring) list" where
  "MODEL_LABELS =
     [(js ''qwen'', js ''Qwen (Alibaba)''),
      (js ''nano-banana'', js ''Google Nano Banana''),
      (js ''grok'', js ''xAI Grok''),
      (js ''meta'', js ''Meta AI'')]"

definition WORKFLOW_LABELS :: "(jsstring \<times> jsstring) list" where
  "WORKFLOW_LABELS =
     [(js ''generate'', js ''Generate new artwork''),
      (js ''edit'', js ''Edit current selection''),
      (js ''expand'', js ''Outpaint beyond canvas'')]"

text \<open>
  The tables are plain object literals, so \<open>TABLE[key]\<close> also finds the members every
  object inherits. Such a member is a function (for \<open>__proto__\<close>, the prototype object
  itself), which is truthy; the code only ever puts it into a template literal, so what
  is modelled is the string it becomes there, in the engine's wording.
\<close>

definition nativeFunction :: "string \<Rightarrow> jsstring" where
  "nativeFunction f = js ''function '' @ js f @ js ''() { [native code] }''"

definition Object_prototype :: "(jsstring \<times> jsstring) list" where
  "Object_prototype =
     [(js ''constructor'', nativeFunction ''Object''),
      (js ''__defineGetter__'', nativeFunction ''__defineGetter__''),
      (js ''__defineSetter__'', nativeFunction ''__defineSetter__''),
      (js ''hasOwnProperty'', nativeFunction ''hasOwnProperty''),
      (js ''__lookupGetter__'', nativeFunction ''__lookupGetter__''),
      (js ''__lookupSetter__'', nativeFunction ''__lookupSetter__''),
      (js ''isPrototypeOf'', nativeFunction ''isPrototypeOf''),
      (js ''propertyIsEnumerable'', nativeFunction ''propertyIsEnumerable''),
      (js ''toString'', nativeFunction ''toString''),
      (js ''valueOf'', nativeFunction ''valueOf''),
      (js ''__proto__'', js ''[object Object]''),
      (js ''toLocaleString'', nativeFunction ''toLocaleString'')]"

text \<open>
  \<open>`${TABLE[key] || fallback}`\<close>: the entry of the table (the fallback, should the entry be
  the empty string); for a key without an entry, the inherited member of that name; and
  the fallback when there is neither.
\<close>

definition lookup_or :: "(jsstring \<times> jsstring) list \<Rightarrow> jsstring \<Rightarrow> jsstring \<Rightarrow> jsstring" where
  "lookup_or table key fallback =
     (case map_of table key of
        Some label \<Rightarrow> if label = [] then fallback else label
      | None \<Rightarrow>
          (case map_of Object_prototype key of
             Some shown \<Rightarrow> shown
           | None \<Rightarrow> fallback))"

text \<open>The Document Summary; a field that the source leaves \<open>undefined\<close> is \<open>None\<close>.\<close>

record docSummary =
  name :: jsstring
  widthPx :: "jsnumber option"
  heightPx :: "jsnumber option"
  resolution :: "jsnumber option"
  numberOfLayers :: "jsnumber option"

text \<open>The Preview Record, \<open>state.preview\<close>; \<open>None\<close> is \<open>null\<close>.\<close>

record preview =
  url :: jsstring
  prompt :: jsstring
  model :: jsstring
  workflow :: jsstring
  strength :: jsnumber
  preserveSubject :: bool
  respectMask :: bool
  documentSummary :: "docSummary option"

text \<open>
  The controls of the panel (\<open>elements\<close>), one field for each property of a control that
  the code reads or writes.
\<close>

record elements =
  promptInput_value :: jsstring
  modelPicker_value :: jsstring
  workflowPicker_value :: jsstring
  strengthSlider_value :: jsnumber
  strengthValue_textContent :: jsstring
  seamlessSwitch_checked :: bool
  maskSwitch_checked :: bool
  generateButton_disabled :: bool
  applyButton_disabled :: bool
  refreshButton_disabled :: bool
  statusText_textContent :: jsstring
  statusText_status :: jsstring
  progressBar_hidden :: bool
  previewImage_src :: jsstring
  previewImage_hidden :: bool
  previewPlaceholder_hidden :: bool
  previewPlaceholder_textContent :: jsstring
  documentInfo_textContent :: jsstring

text \<open>
  What the user can do to the inputs while a request is awaited: the buttons are
  disabled then, the inputs are not. Moving the slider also runs its \<open>input\<close> listener,
  which rewrites the percentage beside it.
\<close>

datatype edit =
    EditPrompt jsstring
  | EditModel jsstring
  | EditWorkflow jsstring
  | EditStrength jsnumber
  | EditSeamless bool
  | EditMask bool

fun applyEdit :: "elements \<Rightarrow> edit \<Rightarrow> elements" where
  "applyEdit e (EditPrompt v) = e\<lparr>promptInput_value := v\<rparr>"
| "applyEdit e (EditModel v) = e\<lparr>modelPicker_value := v\<rparr>"
| "applyEdit e (EditWorkflow v) = e\<lparr>workflowPicker_value := v\<rparr>"
| "applyEdit e (EditStrength v) =
     e\<lparr>strengthSlider_value := v,
       strengthValue_textContent := numberToString v @ js ''%''\<rparr>"
| "applyEdit e (EditSeamless v) = e\<lparr>seamlessSwitch_checked := v\<rparr>"
| "applyEdit e (EditMask v) = e\<lparr>maskSwitch_checked := v\<rparr>"

section \<open>The host\<close>

text \<open>
  The editor is an oracle: what each of its calls answers. Reading
  \<open>app.documents.length\<close>, the descriptor query \<open>action.batchPlay\<close>, entering the modal
  scope and creating the layer can each throw; the metadata of the active document is
  plain data. A width or height either is a unit value, with its size in pixels, or has
  no \<open>as\<close> function.
\<close>

datatype dimension = NoUnitValue | UnitValue jsnumber

record psdocument =
  document_title :: "jsstring option"
  document_name :: "jsstring option"
  document_resolution :: "jsnumber option"
  document_width :: dimension
  document_height :: dimension

record descriptor =
  descriptor_numberOfLayers :: "jsnumber option"

record host =
  documents_length :: "js_error + nat"
  activeDocument :: psdocument
  batchPlay :: "js_error + descriptor list"
  executeAsModal :: "js_error option"
  createLayer :: "js_error option"

text \<open>
  The calls a handler makes, in the order it makes them: those into the repository's own
  components and those into the host.
\<close>

datatype event =
    FetchDocumentSummary
  | BatchPlay
  | SimulatePreview
  | UpdateDocumentInfo
  | ExecuteAsModal jsstring
  | CreateLayer jsstring

record session =
  state_preview :: "preview option"
  els :: elements
  trace :: "event list"

section \<open>The functions of main.js\<close>

definition setStatus :: "elements \<Rightarrow> jsstring \<Rightarrow> jsstring \<Rightarrow> elements" where
  "setStatus e status msg = e\<lparr>statusText_textContent := msg, statusText_status := status\<rparr>"

definition setProcessing :: "preview option \<Rightarrow> elements \<Rightarrow> bool \<Rightarrow> elements" where
  "setProcessing pv e isProcessing =
     (let e1 = e\<lparr>generateButton_disabled := isProcessing,
                  refreshButton_disabled := isProcessing,
                  progressBar_hidden := \<not> isProcessing,
                  applyButton_disabled := (isProcessing \<or> pv = None)\<rparr>
      in if pv = None then e1\<lparr>previewPlaceholder_hidden := False, previewImage_hidden := True\<rparr>
         else e1)"

text \<open>\<open>a || b\<close> on strings that may be \<open>undefined\<close>.\<close>

definition or_else :: "jsstring option \<Rightarrow> jsstring \<Rightarrow> jsstring" where
  "or_else a b = (case a of None \<Rightarrow> b | Some v \<Rightarrow> if v = [] then b else v)"

text \<open>
  \<open>fetchDocumentSummary\<close>: its result (\<open>Inl\<close> when it rejects, \<open>Inr None\<close> for \<open>null\<close>)
  and the calls it makes. A failed descriptor query is caught inside.
\<close>

definition fetchDocumentSummary :: "host \<Rightarrow> (js_error + docSummary option) \<times> event list" where
  "fetchDocumentSummary h =
     (case documents_length h of
        Inl err \<Rightarrow> (Inl err, [FetchDocumentSummary])
      | Inr n \<Rightarrow>
          if n = 0 then (Inr None, [FetchDocumentSummary])
          else
            let document = activeDocument h;
                s0 = \<lparr>name = or_else (document_title document)
                                (or_else (document_name document) (js ''Untitled'')),
                      widthPx = None, heightPx = None,
                      resolution = document_resolution document,
                      numberOfLayers = None\<rparr>;
                s1 = (case document_width document of
                        UnitValue px \<Rightarrow> s0\<lparr>widthPx := Some px\<rparr>
                      | NoUnitValue \<Rightarrow> s0);
                s2 = (case document_height document of
                        UnitValue px \<Rightarrow> s1\<lparr>heightPx := Some px\<rparr>
                      | NoUnitValue \<Rightarrow> s1);
                s3 = (case batchPlay h of
                        Inl err \<Rightarrow> s2
                      | Inr [] \<Rightarrow> s2
                      | Inr (d # ds) \<Rightarrow>
                          (case descriptor_numberOfLayers d of
                             Some k \<Rightarrow> s2\<lparr>numberOfLayers := Some k\<rparr>
                           | None \<Rightarrow> s2))
            in (Inr (Some s3), [FetchDocumentSummary, BatchPlay]))"

definition formatDocumentSummary :: "docSummary \<Rightarrow> jsstring" where
  "formatDocumentSummary summary =
     (let width = (case widthPx summary of
                     Some w \<Rightarrow> if w = 0 then js ''Unknown width'' else numberToString w @ js '' px''
                   | None \<Rightarrow> js ''Unknown width'');
          height = (case heightPx summary of
                      Some v \<Rightarrow> if v = 0 then js ''Unknown height'' else numberToString v @ js '' px''
                    | None \<Rightarrow> js ''Unknown height'');
          layers = (case numberOfLayers summary of
                      Some k \<Rightarrow> numberToString k @ js '' layers''
                    | None \<Rightarrow> js ''Layer count unavailable'');
          res = (case resolution summary of
                   Some r \<Rightarrow> if r = 0 then js ''Resolution unknown'' else numberToString r @ js '' ppi''
                 | None \<Rightarrow> js ''Resolution unknown'')
      in name summary @ js ''\<newline>'' @ width @ js '' '' @ [0xD7] @ js '' '' @ height
         @ js ''\<newline>'' @ layers @ js ''\<newline>'' @ res)"

definition updateDocumentInfo :: "host \<Rightarrow> session \<Rightarrow> session" where
  "updateDocumentInfo h s =
     (let (r, calls) = fetchDocumentSummary h;
          info = (case r of
                    Inr (Some summary) \<Rightarrow> formatDocumentSummary summary
                  | Inr None \<Rightarrow> js ''No Photoshop document detected.''
                  | Inl err \<Rightarrow> js ''Error loading document info: '' @ message err)
      in s\<lparr>els := (els s)\<lparr>documentInfo_textContent := info\<rparr>,
           trace := trace s @ [UpdateDocumentInfo] @ calls\<rparr>)"

text \<open>
  The five replacement passes of \<open>escapeHtml\<close>, in the order of the source: the ampersand
  first, then \<open><\<close>, \<open>>\<close>, the double quote (code unit 0x22) and the single quote (0x27).
\<close>

definition escapeHtml :: "jsstring \<Rightarrow> jsstring" where
  "escapeHtml text =
     replace_g 0x27 (js ''&#039;'')
       (replace_g 0x22 (js ''&quot;'')
         (replace_g (ch CHR ''>'') (js ''&gt;'')
           (replace_g (ch CHR ''<'') (js ''&lt;'')
             (replace_g (ch CHR ''&'') (js ''&amp;'') text))))"

text \<open>The SVG document around the escaped text, as the template literal has it.\<close>

definition svg_before :: jsstring where
  "svg_before =
     js ''<svg xmlns='http://www.w3.org/2000/svg' width='800' height='600'>\<newline>''
     @ js ''    <defs>\<newline>''
     @ js ''      <linearGradient id='bg' x1='0%' y1='0%' x2='100%' y2='100%'>\<newline>''
     @ js ''        <stop offset='0%' stop-color='#1473E6'/>\<newline>''
     @ js ''        <stop offset='100%' stop-color='#5C6BC0'/>\<newline>''
     @ js ''      </linearGradient>\<newline>''
     @ js ''    </defs>\<newline>''
     @ js ''    <rect width='800' height='600' rx='32' fill='url(#bg)' />\<newline>''
     @ js ''    <foreignObject x='32' y='32' width='736' height='536'>\<newline>''
     @ js ''      <body xmlns='http://www.w3.org/1999/xhtml' ''
     @ js ''style='color:white;font-family:Arial,Helvetica,sans-serif;'>\<newline>''
     @ js ''        <h2 style='margin:0 0 12px 0;'>AI Preview</h2>\<newline>''
     @ js ''        <pre style='white-space:pre-wrap;font-size:20px;line-height:1.4;'>''"

definition svg_after :: jsstring where
  "svg_after =
     js ''</pre>\<newline>''
     @ js ''      </body>\<newline>''
     @ js ''    </foreignObject>\<newline>''
     @ js ''  </svg>''"

definition previewText :: "elements \<Rightarrow> jsstring \<Rightarrow> jsstring" where
  "previewText e prompt' =
     js ''Model: '' @ lookup_or MODEL_LABELS (modelPicker_value e) (js ''Custom model'')
     @ js ''\<newline>Workflow: '' @ lookup_or WORKFLOW_LABELS (workflowPicker_value e) (js ''Workflow'')
     @ js ''\<newline>Strength: '' @ numberToString (strengthSlider_value e) @ js ''%''
     @ js ''\<newline>Preserve Subject: '' @ (if seamlessSwitch_checked e then js ''Yes'' else js ''No'')
     @ js ''\<newline>Respect Mask: '' @ (if maskSwitch_checked e then js ''Yes'' else js ''No'')
     @ js ''\<newline>Prompt: '' @ prompt'
     @ js ''\<newline>'' @ documentInfo_textContent e"

text \<open>
  The three \<open>replace\<close> calls chained on the result of \<open>encodeURIComponent\<close>: the
  single quote and the two parentheses, which the built-in leaves alone, are
  percent-escaped as well.
\<close>

definition escapeQuotesParens :: "jsstring \<Rightarrow> jsstring" where
  "escapeQuotesParens enc =
     replace_g (ch CHR '')'') (js ''%29'')
       (replace_g (ch CHR ''('') (js ''%28'')
         (replace_g 0x27 (js ''%27'') enc))"

text \<open>
  \<open>simulatePreview\<close>: \<open>Inl\<close> when the call throws (it builds the string before it creates
  the promise), \<open>Inr\<close> the value its promise resolves with after the timer. The promise
  has no reject path.
\<close>

definition simulatePreview :: "elements \<Rightarrow> jsstring \<Rightarrow> js_error + jsstring" where
  "simulatePreview e prompt' =
     (let svg = svg_before @ escapeHtml (previewText e prompt') @ svg_after
      in case encodeURIComponent svg of
           Inl err \<Rightarrow> Inl err
         | Inr enc \<Rightarrow> Inr (js ''data:image/svg+xml,'' @ escapeQuotesParens enc))"

text \<open>
  \<open>handleGenerate\<close>. The array handed to \<open>Promise.all\<close> is built first:
  \<open>fetchDocumentSummary\<close> is started, then \<open>simulatePreview\<close> runs; if it throws, control
  goes to \<open>catch\<close> at once. Otherwise the handler awaits both, and \<open>inflight\<close> is what the
  user does to the inputs meanwhile; a rejected summary goes to \<open>catch\<close>. \<open>finally\<close>
  runs on every path.
\<close>

definition generateFailed :: "preview option \<Rightarrow> elements \<Rightarrow> js_error \<Rightarrow> elements" where
  "generateFailed pv e err =
     setProcessing pv (setStatus e (js ''error'') (js ''Preview failed: '' @ message err)) False"

definition handleGenerate :: "host \<Rightarrow> edit list \<Rightarrow> session \<Rightarrow> session" where
  "handleGenerate h inflight s =
     (let prompt' = trim (promptInput_value (els s)) in
      if prompt' = [] then
        s\<lparr>els := setStatus (els s) (js ''warning'')
                    (js ''Please enter a prompt before generating a preview.'')\<rparr>
      else
        let e1 = setProcessing (state_preview s) (els s) True;
            e2 = setStatus e1 (js ''pending'') (js ''Contacting AI service...'');
            e3 = e2\<lparr>previewPlaceholder_hidden := False,
                     previewPlaceholder_textContent := js ''Generating preview...'',
                     previewImage_hidden := True\<rparr>;
            (summary, calls) = fetchDocumentSummary h;
            t = trace s @ calls @ [SimulatePreview]
        in case simulatePreview e3 prompt' of
             Inl err \<Rightarrow> s\<lparr>els := generateFailed (state_preview s) e3 err, trace := t\<rparr>
           | Inr previewUrl \<Rightarrow>
               let e4 = foldl applyEdit e3 inflight in
               (case summary of
                  Inl err \<Rightarrow> s\<lparr>els := generateFailed (state_preview s) e4 err, trace := t\<rparr>
                | Inr documentSummary' \<Rightarrow>
                    let pv = \<lparr>url = previewUrl, prompt = prompt',
                              model = modelPicker_value e4,
                              workflow = workflowPicker_value e4,
                              strength = strengthSlider_value e4,
                              preserveSubject = seamlessSwitch_checked e4,
                              respectMask = maskSwitch_checked e4,
                              documentSummary = documentSummary'\<rparr>;
                        e5 = e4\<lparr>previewImage_src := url pv, previewImage_hidden := False,
                                 previewPlaceholder_hidden := True,
                                 applyButton_disabled := False\<rparr>;
                        e6 = setStatus e5 (js ''success'')
                               (js ''Preview generated. Apply to Photoshop to insert a placeholder layer.'')
                    in \<lparr>state_preview = Some pv, els = setProcessing (Some pv) e6 False,
                        trace = t\<rparr>))"

text \<open>
  \<open>handleApply\<close>: \<open>h\<close> answers the calls up to the mutation, \<open>h'\<close> those of the refresh
  that follows it. Reading \<open>app.documents.length\<close> is outside the \<open>try\<close>, so its failure
  rejects the handler (\<open>Inl\<close>). The bullet in the layer name is U+2022.
\<close>

definition layerName :: "preview \<Rightarrow> jsstring" where
  "layerName pv =
     lookup_or MODEL_LABELS (model pv) (js ''AI'') @ js '' '' @ [0x2022] @ js '' '' @ workflow pv"

definition handleApply :: "host \<Rightarrow> host \<Rightarrow> session \<Rightarrow> js_error + session" where
  "handleApply h h' s =
     (case state_preview s of
        None \<Rightarrow>
          Inr (s\<lparr>els := setStatus (els s) (js ''warning'')
                          (js ''Generate a preview before applying.'')\<rparr>)
      | Some pv \<Rightarrow>
          (case documents_length h of
             Inl err \<Rightarrow> Inl err
           | Inr n \<Rightarrow>
               if n = 0 then
                 Inr (s\<lparr>els := setStatus (els s) (js ''warning'')
                                 (js ''Open a Photoshop document to apply the AI result.'')\<rparr>)
               else
                 let e1 = setProcessing (Some pv) (els s) True;
                     e2 = setStatus e1 (js ''pending'')
                            (js ''Creating Photoshop layer placeholder...'');
                     (outcome, calls) =
                       (case executeAsModal h of
                          Some err \<Rightarrow> (Some err, [ExecuteAsModal (js ''AI Placeholder Layer'')])
                        | None \<Rightarrow>
                            (createLayer h,
                             [ExecuteAsModal (js ''AI Placeholder Layer''),
                              CreateLayer (layerName pv)]));
                     e3 = (case outcome of
                             None \<Rightarrow>
                               setStatus e2 (js ''success'')
                                 (js ''Placeholder layer created. Replace its contents with the generated pixels from your service.'')
                           | Some err \<Rightarrow>
                               setStatus e2 (js ''error'')
                                 (js ''Could not apply result: '' @ message err));
                     e4 = setProcessing (Some pv) e3 False
                 in Inr (updateDocumentInfo h' (s\<lparr>els := e4, trace := trace s @ calls\<rparr>))))"

section \<open>Notions of the specification\<close>

text \<open>
  The reading side of the round trip, written from the specification: what a standard
  HTML or SVG parser does with the five entities. It scans from the left; at an
  ampersand that starts one of the five entities it emits the character the entity
  names and continues after the entity; any other code unit is kept.
\<close>

fun unescapeEntities :: "jsstring \<Rightarrow> jsstring" where
  "unescapeEntities [] = []"
| "unescapeEntities (c # cs) =
     (if c = ch CHR ''&'' then
        (if prefix (js ''amp;'') cs then ch CHR ''&'' # unescapeEntities (drop 4 cs)
         else if prefix (js ''lt;'') cs then ch CHR ''<'' # unescapeEntities (drop 3 cs)
         else if prefix (js ''gt;'') cs then ch CHR ''>'' # unescapeEntities (drop 3 cs)
         else if prefix (js ''quot;'') cs then 0x22 # unescapeEntities (drop 5 cs)
         else if prefix (js ''#039;'') cs then 0x27 # unescapeEntities (drop 5 cs)
         else c # unescapeEntities cs)
      else c # unescapeEntities cs)"

text \<open>
  Percent-decoding, written from the specification's "when decoded": \<open>%XY\<close> becomes the
  octet with the hexadecimal value \<open>XY\<close>, any other ASCII character becomes its own
  octet, and anything else is not a percent-encoded string.
\<close>

definition hexValue :: "16 word \<Rightarrow> nat option" where
  "hexValue c =
     (if 0x30 \<le> c \<and> c \<le> 0x39 then Some (unat c - 48)
      else if 0x41 \<le> c \<and> c \<le> 0x46 then Some (unat c - 55)
      else if 0x61 \<le> c \<and> c \<le> 0x66 then Some (unat c - 87)
      else None)"

fun percentDecode :: "jsstring \<Rightarrow> 8 word list option" where
  "percentDecode [] = Some []"
| "percentDecode (c # cs) =
     (if c = 0x25 then
        (case cs of
           h # l # rest \<Rightarrow>
             (case (hexValue h, hexValue l) of
                (Some a, Some b) \<Rightarrow> map_option ((#) (of_nat (16 * a + b))) (percentDecode rest)
              | _ \<Rightarrow> None)
         | _ \<Rightarrow> None)
      else if c < 0x80 then map_option ((#) (ucast c)) (percentDecode cs)
      else None)"

text \<open>
  The octets of an ASCII literal.
\<close>

definition ascii :: "string \<Rightarrow> 8 word list" where
  "ascii s = map (\<lambda>c. of_nat (of_char c)) s"

text \<open>
  The Configuration Snapshot of the specification, read off the controls (the prompt
  trimmed) and read off a Preview Record: prompt, model, workflow, strength, preserve
  subject, respect mask.
\<close>

definition configurationSnapshot ::
  "elements \<Rightarrow> jsstring \<times> jsstring \<times> jsstring \<times> jsnumber \<times> bool \<times> bool" where
  "configurationSnapshot e =
     (trim (promptInput_value e), modelPicker_value e, workflowPicker_value e,
      strengthSlider_value e, seamlessSwitch_checked e, maskSwitch_checked e)"

definition storedSnapshot ::
  "preview \<Rightarrow> jsstring \<times> jsstring \<times> jsstring \<times> jsnumber \<times> bool \<times> bool" where
  "storedSnapshot pv =
     (prompt pv, model pv, workflow pv, strength pv, preserveSubject pv, respectMask pv)"

section \<open>The scenarios of the specification\<close>

text \<open>
  The configuration of the specification's scenarios: the prompt "a red fox in snow",
  model \<open>grok\<close>, workflow \<open>edit\<close>, strength 40, preserve-subject on, respect-mask off, in
  a panel that is idle and holds no preview.
\<close>

definition scenario_elements :: elements where
  "scenario_elements =
     \<lparr>promptInput_value = js ''a red fox in snow'',
      modelPicker_value = js ''grok'',
      workflowPicker_value = js ''edit'',
      strengthSlider_value = 40,
      strengthValue_textContent = js ''40%'',
      seamlessSwitch_checked = True,
      maskSwitch_checked = False,
      generateButton_disabled = False,
      applyButton_disabled = True,
      refreshButton_disabled = False,
      statusText_textContent = [],
      statusText_status = [],
      progressBar_hidden = True,
      previewImage_src = [],
      previewImage_hidden = True,
      previewPlaceholder_hidden = False,
      previewPlaceholder_textContent = [],
      documentInfo_textContent = js ''No Photoshop document detected.''\<rparr>"

definition scenario_session :: session where
  "scenario_session = \<lparr>state_preview = None, els = scenario_elements, trace = []\<rparr>"

text \<open>
  A host without a document, and one with a document of 1024 by 768 pixels at 72 ppi;
  \<open>document_session\<close> is the idle panel after the refresh that \<open>init\<close> runs against it.
\<close>

definition no_document :: host where
  "no_document =
     \<lparr>documents_length = Inr 0,
      activeDocument =
        \<lparr>document_title = None, document_name = None, document_resolution = None,
         document_width = NoUnitValue, document_height = NoUnitValue\<rparr>,
      batchPlay = Inr [],
      executeAsModal = None,
      createLayer = None\<rparr>"

definition open_document :: host where
  "open_document =
     \<lparr>documents_length = Inr 1,
      activeDocument =
        \<lparr>document_title = Some (js ''fox.psd''), document_name = Some (js ''fox.psd''),
         document_resolution = Some 72,
         document_width = UnitValue 1024, document_height = UnitValue 768\<rparr>,
      batchPlay = Inr [\<lparr>descriptor_numberOfLayers = Some 1\<rparr>],
      executeAsModal = None,
      createLayer = None\<rparr>"

definition document_session :: session where
  "document_session = updateDocumentInfo open_document scenario_session"

text \<open>
  An error thrown by a host call, and a host whose document count cannot be read.
\<close>

definition host_failure :: js_error where
  "host_failure = JsError (js ''Error'') (js ''host call failed'')"

definition failing_inspector :: host where
  "failing_inspector = open_document\<lparr>documents_length := Inl host_failure\<rparr>"

text \<open>
  A panel that holds a Preview Record of the scenario's configuration. The artifact is
  cut down to the header of the data URI: \<open>handleApply\<close> never reads it.
\<close>

definition scenario_preview :: preview where
  "scenario_preview =
     \<lparr>url = js ''data:image/svg+xml,'',
      prompt = js ''a red fox in snow'',
      model = js ''grok'',
      workflow = js ''edit'',
      strength = 40,
      preserveSubject = True,
      respectMask = False,
      documentSummary = None\<rparr>"

definition preview_ready :: session where
  "preview_ready =
     \<lparr>state_preview = Some scenario_preview,
      els = scenario_elements\<lparr>applyButton_disabled := False\<rparr>,
      trace = []\<rparr>"

text \<open>
  The scenario with a prompt of white space only (a space, a tab, an ideographic
  space), and with a prompt that is a lone high surrogate.
\<close>

definition blank_prompt_session :: session where
  "blank_prompt_session =
     scenario_session\<lparr>els := scenario_elements\<lparr>promptInput_value := js '' '' @ [0x09, 0x3000]\<rparr>\<rparr>"

definition lone_surrogate_session :: session where
  "lone_surrogate_session =
     scenario_session\<lparr>els := scenario_elements\<lparr>promptInput_value := [0xD800]\<rparr>\<rparr>"

section \<open>Strings and escaping\<close>

lemma js_Nil [simp]: "js [] = []"
  by (simp add: js_def)

lemma js_Cons [simp]: "js (c # cs) = ch c # js cs"
  by (simp add: js_def)

lemma ch_Char [simp]:
  "ch (Char b0 b1 b2 b3 b4 b5 b6 b7) =
     of_nat (horner_sum of_bool 2 [b0, b1, b2, b3, b4, b5, b6, b7])"
  by (simp add: ch_def)

lemma replace_g_Nil [simp]: "replace_g c r [] = []"
  by (simp add: replace_g_def)

lemma replace_g_Cons [simp]:
  "replace_g c r (x # xs) = (if x = c then r else [x]) @ replace_g c r xs"
  by (simp add: replace_g_def)

lemma replace_g_append: "replace_g c r (xs @ ys) = replace_g c r xs @ replace_g c r ys"
  by (simp add: replace_g_def)

lemma escapeHtml_Nil [simp]: "escapeHtml [] = []"
  by (simp add: escapeHtml_def)

lemma escapeHtml_append: "escapeHtml (xs @ ys) = escapeHtml xs @ escapeHtml ys"
  by (simp add: escapeHtml_def replace_g_append)

lemma escapeHtml_single:
  "escapeHtml [x] =
     (if x = 0x26 then js ''&amp;''
      else if x = 0x3C then js ''&lt;''
      else if x = 0x3E then js ''&gt;''
      else if x = 0x22 then js ''&quot;''
      else if x = 0x27 then js ''&#039;''
      else [x])"
  by (simp add: escapeHtml_def)

lemma escapeHtml_Cons: "escapeHtml (x # xs) = escapeHtml [x] @ escapeHtml xs"
  using escapeHtml_append [of "[x]" xs] by simp

lemma unescapeEntities_escaped_Cons:
  "unescapeEntities (escapeHtml [x] @ rest) = x # unescapeEntities rest"
  by (simp add: escapeHtml_single)

lemma escapeHtml_single_no_raw:
  "set (escapeHtml [x]) \<inter> {0x3C, 0x3E, 0x22, 0x27} = {}"
  by (simp add: escapeHtml_single)

lemma escapeHtml_no_raw: "set (escapeHtml str) \<inter> {0x3C, 0x3E, 0x22, 0x27} = {}"
proof (induction str)
  case Nil
  show ?case by simp
next
  case (Cons x xs)
  have "set (escapeHtml (x # xs)) = set (escapeHtml [x]) \<union> set (escapeHtml xs)"
    by (subst escapeHtml_Cons) simp
  with Cons escapeHtml_single_no_raw [of x] show ?case
    by (simp only: Int_Un_distrib2) simp
qed

lemma unat_ch: "unat (ch c) = of_char c"
proof -
  have "(of_char c :: nat) \<le> 255"
    using nat_of_char_less_256 [of c] by linarith
  then have "(of_char c :: nat) mod 65536 = of_char c"
    by (intro mod_less) linarith
  then show ?thesis
    by (simp add: ch_def unat_of_nat take_bit_eq_mod)
qed

lemma ucast_ch: "(ucast (ch c) :: 8 word) = of_nat (of_char c)"
proof -
  have "(ucast (ch c) :: 8 word) = of_nat (unat (ch c))" by simp
  then show ?thesis by (simp only: unat_ch)
qed

lemma map_ucast_js: "map ucast (js s) = ascii s"
  by (induction s) (simp_all add: ascii_def ucast_ch del: ch_Char)

section \<open>Surrogates and well-formed strings\<close>

lemma noSurrogate_simps [simp]:
  "noSurrogate [] = True"
  "noSurrogate (c # cs) = ((\<not> isHighSurrogate c \<and> \<not> isLowSurrogate c) \<and> noSurrogate cs)"
  "noSurrogate (a @ b) = (noSurrogate a \<and> noSurrogate b)"
  by (simp_all add: noSurrogate_def)

lemma ch_not_surrogate: "\<not> isHighSurrogate (ch c) \<and> \<not> isLowSurrogate (ch c)"
proof -
  have "(of_char c :: nat) \<le> 255"
    using nat_of_char_less_256 [of c] by linarith
  then show ?thesis
    by (auto simp: isHighSurrogate_def isLowSurrogate_def word_le_nat_alt unat_ch)
qed

lemma noSurrogate_js [simp]: "noSurrogate (js s)"
  by (induction s) (simp_all add: ch_not_surrogate del: ch_Char)

lemma small_not_surrogate:
  "k < 0xD800 \<Longrightarrow> \<not> isHighSurrogate (of_nat k) \<and> \<not> isLowSurrogate (of_nat k)"
proof -
  assume k: "k < 0xD800"
  then have "k mod 65536 = k" by simp
  with k show ?thesis
    by (auto simp: isHighSurrogate_def isLowSurrogate_def word_le_nat_alt unat_of_nat
        take_bit_eq_mod)
qed

lemma ascii_not_surrogate: "c < 0x80 \<Longrightarrow> \<not> isHighSurrogate c \<and> \<not> isLowSurrogate c"
  by (auto simp: isHighSurrogate_def isLowSurrogate_def word_le_nat_alt word_less_nat_alt)

lemma isWellFormed_append:
  "isWellFormed a \<Longrightarrow> isWellFormed b \<Longrightarrow> isWellFormed (a @ b)"
proof (induction a rule: isWellFormed.induct)
  case 1
  then show ?case by simp
next
  case (2 c cs)
  show ?case
  proof (cases "\<not> isHighSurrogate c \<and> \<not> isLowSurrogate c")
    case True
    with 2 show ?thesis by simp
  next
    case sur: False
    with "2.prems" have low: "\<not> isLowSurrogate c" by auto
    with sur "2.prems" obtain d ds where cs: "cs = d # ds" and d: "isLowSurrogate d"
      and ds: "isWellFormed ds"
      by (cases cs) auto
    from sur low cs d ds "2.IH"(2) "2.prems" have "isWellFormed (ds @ b)" by simp
    with sur low cs d show ?thesis by simp
  qed
qed

lemma isWellFormed_append_left:
  "isWellFormed (a @ b) \<Longrightarrow> list_all (\<lambda>c. \<not> isHighSurrogate c \<and> \<not> isLowSurrogate c) b
   \<Longrightarrow> isWellFormed a"
proof (induction a rule: isWellFormed.induct)
  case 1
  then show ?case by simp
next
  case (2 c cs)
  show ?case
  proof (cases "\<not> isHighSurrogate c \<and> \<not> isLowSurrogate c")
    case True
    with 2 show ?thesis by simp
  next
    case sur: False
    with "2.prems" have low: "\<not> isLowSurrogate c" by auto
    show ?thesis
    proof (cases cs)
      case Nil
      with sur low "2.prems" show ?thesis by (cases b) auto
    next
      case (Cons d ds)
      with sur low "2.prems" have d: "isLowSurrogate d" and "isWellFormed (ds @ b)" by auto
      with sur low Cons "2.IH"(2) "2.prems"(2) have "isWellFormed ds" by simp
      with sur low Cons d show ?thesis by simp
    qed
  qed
qed

lemma isWellFormed_prefix_noSurrogate:
  "noSurrogate a \<Longrightarrow> isWellFormed (a @ b) = isWellFormed b"
  by (induction a) simp_all

lemma isWellFormed_suffix_noSurrogate:
  "noSurrogate b \<Longrightarrow> isWellFormed (a @ b) = isWellFormed a"
proof
  assume "noSurrogate b" and "isWellFormed (a @ b)"
  then show "isWellFormed a"
    by (simp add: isWellFormed_append_left noSurrogate_def)
next
  assume b: "noSurrogate b" and a: "isWellFormed a"
  from b have "isWellFormed b"
    using isWellFormed_prefix_noSurrogate [of b "[]"] by simp
  with a show "isWellFormed (a @ b)"
    by (rule isWellFormed_append)
qed

lemma noSurrogate_isWellFormed: "noSurrogate a \<Longrightarrow> isWellFormed a"
  using isWellFormed_prefix_noSurrogate [of a "[]"] by simp

lemma isWellFormed_separated:
  "\<not> isHighSurrogate x \<and> \<not> isLowSurrogate x \<Longrightarrow>
   isWellFormed (a @ x # b) = (isWellFormed a \<and> isWellFormed b)"
proof (induction a rule: isWellFormed.induct)
  case 1
  then show ?case by simp
next
  case (2 c cs)
  show ?case
  proof (cases "\<not> isHighSurrogate c \<and> \<not> isLowSurrogate c")
    case True
    with 2 show ?thesis by simp
  next
    case sur: False
    show ?thesis
    proof (cases "isLowSurrogate c")
      case True
      with sur show ?thesis by simp
    next
      case low: False
      show ?thesis
      proof (cases cs)
        case Nil
        with sur low "2.prems" show ?thesis by simp
      next
        case (Cons d ds)
        with sur low "2.IH"(2) "2.prems" show ?thesis by auto
      qed
    qed
  qed
qed

lemma escapeHtml_single_noSurrogate:
  "\<not> isHighSurrogate c \<and> \<not> isLowSurrogate c \<Longrightarrow> noSurrogate (escapeHtml [c])"
  by (simp add: escapeHtml_single ch_not_surrogate del: ch_Char)

lemma escapeHtml_surrogate:
  "isHighSurrogate c \<or> isLowSurrogate c \<Longrightarrow> escapeHtml [c] = [c]"
  by (auto simp: escapeHtml_single isHighSurrogate_def isLowSurrogate_def)

lemma isWellFormed_escapeHtml: "isWellFormed (escapeHtml str) = isWellFormed str"
proof (induction str rule: isWellFormed.induct)
  case 1
  show ?case by simp
next
  case (2 c cs)
  show ?case
  proof (cases "\<not> isHighSurrogate c \<and> \<not> isLowSurrogate c")
    case True
    then have "isWellFormed (escapeHtml [c] @ escapeHtml cs) = isWellFormed (escapeHtml cs)"
      by (simp add: isWellFormed_prefix_noSurrogate escapeHtml_single_noSurrogate)
    with True "2.IH"(1) show ?thesis
      by (subst escapeHtml_Cons) simp
  next
    case sur: False
    then have c: "escapeHtml (c # cs) = c # escapeHtml cs"
      by (subst escapeHtml_Cons) (simp add: escapeHtml_surrogate)
    show ?thesis
    proof (cases "isLowSurrogate c")
      case True
      with sur c show ?thesis by simp
    next
      case low: False
      show ?thesis
      proof (cases cs)
        case Nil
        with sur low c show ?thesis by simp
      next
        case (Cons d ds)
        show ?thesis
        proof (cases "isLowSurrogate d")
          case True
          then have "escapeHtml (d # ds) = d # escapeHtml ds"
            by (subst escapeHtml_Cons) (simp add: escapeHtml_surrogate)
          with sur low c Cons True "2.IH"(2) show ?thesis by simp
        next
          case False
          have "\<exists>y ys. escapeHtml (d # ds) = y # ys \<and> \<not> isLowSurrogate y"
          proof (cases "isHighSurrogate d")
            case True
            with False show ?thesis
              by (subst escapeHtml_Cons) (simp add: escapeHtml_surrogate)
          next
            case nh: False
            with False have "noSurrogate (escapeHtml [d])"
              by (simp add: escapeHtml_single_noSurrogate)
            moreover have "escapeHtml [d] \<noteq> []"
              by (simp add: escapeHtml_single)
            ultimately show ?thesis
              by (subst escapeHtml_Cons) (cases "escapeHtml [d]"; simp)
          qed
          with sur low c Cons False show ?thesis by auto
        qed
      qed
    qed
  qed
qed

section \<open>Trimming\<close>

lemma isWhiteSpace_not_surrogate:
  "isWhiteSpace c \<Longrightarrow> \<not> isHighSurrogate c \<and> \<not> isLowSurrogate c"
  by (auto simp: isWhiteSpace_def isHighSurrogate_def isLowSurrogate_def
      word_le_nat_alt word_less_nat_alt)

lemma whitespace_noSurrogate: "list_all isWhiteSpace str \<Longrightarrow> noSurrogate str"
  by (induction str) (simp_all add: isWhiteSpace_not_surrogate)

lemma trim_empty_iff: "trim str = [] \<longleftrightarrow> list_all isWhiteSpace str"
proof
  assume "trim str = []"
  then have "dropWhile isWhiteSpace str = []"
    by (simp add: trim_def dropWhile_eq_Nil_conv)
       (metis dropWhile_eq_Nil_conv hd_dropWhile hd_in_set)
  then show "list_all isWhiteSpace str"
    by (simp add: dropWhile_eq_Nil_conv list_all_iff)
next
  assume "list_all isWhiteSpace str"
  then have "dropWhile isWhiteSpace str = []"
    by (simp add: dropWhile_eq_Nil_conv list_all_iff)
  then show "trim str = []"
    by (simp add: trim_def del: dropWhile_eq_Nil_conv)
qed

lemma trim_decomposition:
  "\<exists>a b. str = a @ trim str @ b \<and> list_all isWhiteSpace a \<and> list_all isWhiteSpace b"
proof -
  define t where "t = dropWhile isWhiteSpace str"
  have 1: "str = takeWhile isWhiteSpace str @ t"
    by (simp add: t_def)
  have "t = rev (dropWhile isWhiteSpace (rev t)) @ rev (takeWhile isWhiteSpace (rev t))"
    by (metis rev_append rev_rev_ident takeWhile_dropWhile_id)
  then have 2: "t = trim str @ rev (takeWhile isWhiteSpace (rev t))"
    unfolding trim_def t_def .
  have 3: "list_all isWhiteSpace (takeWhile isWhiteSpace str)"
    "list_all isWhiteSpace (rev (takeWhile isWhiteSpace (rev t)))"
    by (auto simp: list_all_iff dest: set_takeWhileD)
  from 1 2 have "str = takeWhile isWhiteSpace str @ trim str @ rev (takeWhile isWhiteSpace (rev t))"
    by simp
  with 3 show ?thesis by blast
qed

lemma isWellFormed_trim: "isWellFormed (trim str) = isWellFormed str"
proof -
  obtain a b where s: "str = a @ trim str @ b"
    and a: "list_all isWhiteSpace a" and b: "list_all isWhiteSpace b"
    using trim_decomposition by blast
  have "isWellFormed (a @ trim str @ b) = isWellFormed (trim str)"
    using a b
    by (simp add: isWellFormed_prefix_noSurrogate isWellFormed_suffix_noSurrogate
        whitespace_noSurrogate)
  with s show ?thesis by simp
qed

section \<open>When \<open>encodeURIComponent\<close> throws\<close>

lemma uriUnescaped_ascii: "uriUnescaped c \<Longrightarrow> c < 0x80"
  by (auto simp: uriUnescaped_def word_le_nat_alt word_less_nat_alt)

lemma prepend_Inr [simp]: "prepend xs (Inr ys) = Inr (xs @ ys)"
  by (simp add: prepend_def)

lemma prepend_Inl [simp]: "prepend xs (Inl err) = Inl err"
  by (simp add: prepend_def)

lemma isl_prepend [simp]: "isl (prepend xs r) = isl r"
  by (cases r) simp_all

lemma prepend_eq_Inr: "(prepend xs r = Inr enc) = (\<exists>ys. r = Inr ys \<and> enc = xs @ ys)"
  by (cases r) auto

lemma encodeURIComponent_fails_iff: "isl (encodeURIComponent str) = (\<not> isWellFormed str)"
proof (induction str rule: isWellFormed.induct)
  case 1
  show ?case by simp
next
  case (2 c cs)
  show ?case
  proof (cases "\<not> isHighSurrogate c \<and> \<not> isLowSurrogate c")
    case True
    with 2 show ?thesis by simp
  next
    case False
    then have nu: "\<not> uriUnescaped c"
      using uriUnescaped_ascii ascii_not_surrogate by blast
    show ?thesis
    proof (cases "isLowSurrogate c")
      case True
      with nu False show ?thesis by simp
    next
      case low: False
      show ?thesis
      proof (cases cs)
        case Nil
        with nu False low show ?thesis by simp
      next
        case (Cons d ds)
        with nu False low 2 show ?thesis by simp
      qed
    qed
  qed
qed

lemma encodeURIComponent_error: "encodeURIComponent str = Inl err \<Longrightarrow> err = URIError"
proof (induction str arbitrary: err rule: encodeURIComponent.induct)
  case 1
  then show ?case by simp
next
  case (2 c cs)
  have p: "\<And>xs r. prepend xs r = Inl err \<Longrightarrow> r = Inl err"
    by (simp add: prepend_def split: sum.splits)
  show ?case
  proof (cases "uriUnescaped c")
    case True
    with "2.prems" "2.IH"(1) p show ?thesis by simp
  next
    case nu: False
    show ?thesis
    proof (cases "\<not> isHighSurrogate c \<and> \<not> isLowSurrogate c")
      case True
      with nu "2.prems" "2.IH"(2) p show ?thesis by simp
    next
      case sur: False
      show ?thesis
      proof (cases "isLowSurrogate c")
        case True
        with nu sur "2.prems" show ?thesis by simp
      next
        case low: False
        show ?thesis
        proof (cases cs)
          case Nil
          with nu sur low "2.prems" show ?thesis by simp
        next
          case (Cons d ds)
          show ?thesis
          proof (cases "isLowSurrogate d")
            case True
            with nu sur low Cons "2.prems" have "encodeURIComponent ds = Inl err"
              using p by simp
            with nu sur low Cons True "2.IH"(3) show ?thesis by blast
          next
            case False
            with nu sur low Cons "2.prems" show ?thesis by simp
          qed
        qed
      qed
    qed
  qed
qed

lemma utf8_ascii: "c < 0x80 \<Longrightarrow> utf8 (unat (c :: 16 word)) = [ucast c]"
  by (simp add: utf8_def word_less_nat_alt)

section \<open>Percent-decoding what was encoded\<close>

lemma hexValue_hexDigit_numeral:
  "hexValue (hexDigit 0) = Some 0" "hexValue (hexDigit 1) = Some 1" "hexValue (hexDigit 2)
  = Some 2" "hexValue (hexDigit 3) = Some 3" "hexValue (hexDigit 4) = Some 4" "hexValue
  (hexDigit 5) = Some 5" "hexValue (hexDigit 6) = Some 6" "hexValue (hexDigit 7) = Some 7"
  "hexValue (hexDigit 8) = Some 8" "hexValue (hexDigit 9) = Some 9" "hexValue (hexDigit
  10) = Some 10" "hexValue (hexDigit 11) = Some 11" "hexValue (hexDigit 12) = Some 12"
  "hexValue (hexDigit 13) = Some 13" "hexValue (hexDigit 14) = Some 14" "hexValue
  (hexDigit 15) = Some 15"
  by (simp_all add: hexDigit_def hexValue_def)

lemma hexDigit_plain_numeral:
  "hexDigit 0 \<notin> {0x25, 0x27, 0x28, 0x29}" "hexDigit 1 \<notin> {0x25, 0x27, 0x28,
  0x29}" "hexDigit 2 \<notin> {0x25, 0x27, 0x28, 0x29}" "hexDigit 3 \<notin> {0x25, 0x27,
  0x28, 0x29}" "hexDigit 4 \<notin> {0x25, 0x27, 0x28, 0x29}" "hexDigit 5 \<notin> {0x25,
  0x27, 0x28, 0x29}" "hexDigit 6 \<notin> {0x25, 0x27, 0x28, 0x29}" "hexDigit 7 \<notin>
  {0x25, 0x27, 0x28, 0x29}" "hexDigit 8 \<notin> {0x25, 0x27, 0x28, 0x29}" "hexDigit 9
  \<notin> {0x25, 0x27, 0x28, 0x29}" "hexDigit 10 \<notin> {0x25, 0x27, 0x28, 0x29}"
  "hexDigit 11 \<notin> {0x25, 0x27, 0x28, 0x29}" "hexDigit 12 \<notin> {0x25, 0x27, 0x28,
  0x29}" "hexDigit 13 \<notin> {0x25, 0x27, 0x28, 0x29}" "hexDigit 14 \<notin> {0x25,
  0x27, 0x28, 0x29}" "hexDigit 15 \<notin> {0x25, 0x27, 0x28, 0x29}"
  by (simp_all add: hexDigit_def)

lemma below_16:
  "n < 16 \<Longrightarrow> n \<in> {0, 1, 2, 3, 4, 5, 6, 7, 8, 9, 10, 11, 12, 13, 14, 15 :: nat}"
  by simp arith

lemma hexValue_hexDigit:
  assumes "n < 16"
  shows "hexValue (hexDigit n) = Some n"
proof -
  from below_16 [OF assms] show ?thesis
    by (elim insertE emptyE) (simp_all only: hexValue_hexDigit_numeral)
qed

lemma hexDigit_plain:
  assumes "n < 16"
  shows "hexDigit n \<notin> {0x25, 0x27, 0x28, 0x29}"
proof -
  from below_16 [OF assms] show ?thesis
    by (elim insertE emptyE) (simp_all only: hexDigit_plain_numeral not_False_eq_True)
qed

lemma escapeQuotesParens_Nil [simp]: "escapeQuotesParens [] = []"
  by (simp add: escapeQuotesParens_def)

lemma escapeQuotesParens_append:
  "escapeQuotesParens (a @ b) = escapeQuotesParens a @ escapeQuotesParens b"
  by (simp add: escapeQuotesParens_def replace_g_append)

lemma escapeQuotesParens_single:
  "escapeQuotesParens [c] =
     (if c = 0x27 then js ''%27'' else if c = 0x28 then js ''%28''
      else if c = 0x29 then js ''%29'' else [c])"
  by (simp add: escapeQuotesParens_def)

lemma unat_div_16: "unat (b :: 8 word) div 16 < 16"
proof -
  have "unat b < 2 ^ LENGTH(8)" by (rule unsigned_less)
  then show ?thesis by simp
qed

lemma escapeQuotesParens_percentOctet:
  "escapeQuotesParens (percentOctet b) = percentOctet b"
proof -
  have "hexDigit (unat b div 16) \<notin> {0x25, 0x27, 0x28, 0x29}"
    and "hexDigit (unat b mod 16) \<notin> {0x25, 0x27, 0x28, 0x29}"
    by (rule hexDigit_plain, simp add: unat_div_16)+
  then show ?thesis
    by (simp add: percentOctet_def escapeQuotesParens_def)
qed

lemma percentDecode_percentOctet:
  "percentDecode (percentOctet b @ rest) = map_option ((#) b) (percentDecode rest)"
proof -
  have "(of_nat (16 * (unat b div 16) + unat b mod 16) :: 8 word) = b"
    by simp
  then show ?thesis
    by (simp add: percentOctet_def hexValue_hexDigit unat_div_16)
qed

lemma percentDecode_percentOctets:
  "percentDecode (escapeQuotesParens (percentOctets bs) @ rest)
   = map_option ((@) bs) (percentDecode rest)"
proof (induction bs)
  case Nil
  show ?case by (simp add: percentOctets_def option.map_ident)
next
  case (Cons b bs)
  have "percentOctets (b # bs) = percentOctet b @ percentOctets bs"
    by (simp add: percentOctets_def)
  then have "percentDecode (escapeQuotesParens (percentOctets (b # bs)) @ rest)
      = map_option ((#) b) (percentDecode (escapeQuotesParens (percentOctets bs) @ rest))"
    by (simp add: escapeQuotesParens_append escapeQuotesParens_percentOctet
        percentDecode_percentOctet)
  with Cons show ?case
    by (simp add: option.map_comp comp_def)
qed

lemma percentDecode_unescaped:
  assumes "uriUnescaped c"
  shows "percentDecode (escapeQuotesParens [c] @ rest)
         = map_option ((#) (ucast c)) (percentDecode rest)"
proof -
  from assms have lt: "c < 0x80" by (rule uriUnescaped_ascii)
  from assms have ne: "c \<noteq> 0x25" by (auto simp: uriUnescaped_def)
  show ?thesis
  proof (cases "c \<in> {0x27, 0x28, 0x29}")
    case True
    then show ?thesis
      by (auto simp: escapeQuotesParens_single hexValue_def)
  next
    case False
    with lt ne show ?thesis
      by (simp add: escapeQuotesParens_single)
  qed
qed

lemma encodeURIComponent_decodes:
  "encodeURIComponent str = Inr enc \<Longrightarrow>
   \<exists>bytes. percentDecode (escapeQuotesParens enc) = Some bytes"
proof (induction str arbitrary: enc rule: encodeURIComponent.induct)
  case 1
  then show ?case by simp
next
  case (2 c cs)
  show ?case
  proof (cases "uriUnescaped c")
    case True
    with "2.prems" obtain ys where ys: "encodeURIComponent cs = Inr ys" and enc: "enc = [c] @ ys"
      by (auto simp: prepend_eq_Inr)
    from "2.IH"(1) [OF True ys] obtain bytes
      where "percentDecode (escapeQuotesParens ys) = Some bytes" by blast
    with True show ?thesis
      unfolding enc escapeQuotesParens_append by (simp add: percentDecode_unescaped)
  next
    case nu: False
    show ?thesis
    proof (cases "\<not> isHighSurrogate c \<and> \<not> isLowSurrogate c")
      case True
      with nu "2.prems" obtain ys where ys: "encodeURIComponent cs = Inr ys"
        and enc: "enc = percentOctets (utf8 (unat c)) @ ys"
        by (auto simp: prepend_eq_Inr)
      from "2.IH"(2) [OF nu True ys] obtain bytes
        where "percentDecode (escapeQuotesParens ys) = Some bytes" by blast
      then show ?thesis
        unfolding enc escapeQuotesParens_append by (simp add: percentDecode_percentOctets)
    next
      case sur: False
      show ?thesis
      proof (cases "isLowSurrogate c")
        case True
        with nu sur "2.prems" show ?thesis by simp
      next
        case low: False
        show ?thesis
        proof (cases cs)
          case Nil
          with nu sur low "2.prems" show ?thesis by simp
        next
          case (Cons d ds)
          show ?thesis
          proof (cases "isLowSurrogate d")
            case True
            with nu sur low Cons "2.prems" obtain ys where ys: "encodeURIComponent ds = Inr ys"
              and enc: "enc = percentOctets (utf8 (codePoint c d)) @ ys"
              by (auto simp: prepend_eq_Inr)
            from "2.IH"(3) [OF nu sur low Cons True ys] obtain bytes
              where "percentDecode (escapeQuotesParens ys) = Some bytes" by blast
            then show ?thesis
              unfolding enc escapeQuotesParens_append by (simp add: percentDecode_percentOctets)
          next
            case False
            with nu sur low Cons "2.prems" show ?thesis by simp
          qed
        qed
      qed
    qed
  qed
qed

lemma encodeURIComponent_ascii_prefix:
  "list_all (\<lambda>c. c < 0x80) a \<Longrightarrow> encodeURIComponent (a @ b) = Inr enc \<Longrightarrow>
   \<exists>bytes. percentDecode (escapeQuotesParens enc) = Some (map ucast a @ bytes)"
proof (induction a arbitrary: enc)
  case Nil
  then show ?case by (simp add: encodeURIComponent_decodes)
next
  case (Cons c a)
  from Cons.prems have lt: "c < 0x80" and rest: "list_all (\<lambda>c. c < 0x80) a"
    by simp_all
  from lt have ns: "\<not> isHighSurrogate c \<and> \<not> isLowSurrogate c"
    by (rule ascii_not_surrogate)
  show ?case
  proof (cases "uriUnescaped c")
    case True
    with Cons.prems(2) obtain ys where ys: "encodeURIComponent (a @ b) = Inr ys"
      and enc: "enc = [c] @ ys"
      by (auto simp: prepend_eq_Inr)
    from Cons.IH [OF rest ys] obtain bytes
      where "percentDecode (escapeQuotesParens ys) = Some (map ucast a @ bytes)" by blast
    with True show ?thesis
      unfolding enc escapeQuotesParens_append by (simp add: percentDecode_unescaped)
  next
    case False
    with ns Cons.prems(2) obtain ys where ys: "encodeURIComponent (a @ b) = Inr ys"
      and enc: "enc = percentOctets [ucast c] @ ys"
      by (auto simp: prepend_eq_Inr utf8_ascii [OF lt])
    from Cons.IH [OF rest ys] obtain bytes
      where "percentDecode (escapeQuotesParens ys) = Some (map ucast a @ bytes)" by blast
    then show ?thesis
      unfolding enc escapeQuotesParens_append by (simp add: percentDecode_percentOctets)
  qed
qed

lemma percentDecode_header:
  "percentDecode (js ''data:image/svg+xml,'' @ enc)
   = map_option ((@) (ascii ''data:image/svg+xml,'')) (percentDecode enc)"
  by (cases "percentDecode enc") (simp_all add: ascii_def)

section \<open>The preview text and \<open>simulatePreview\<close>\<close>

lemma noSurrogate_digits: "noSurrogate (digits n)"
proof (induction n rule: digits.induct)
  case (1 n)
  show ?case
  proof (cases "n < 10")
    case True
    then have "48 + n < 0xD800" by simp
    from small_not_surrogate [OF this] True show ?thesis
      by (subst digits.simps) simp
  next
    case False
    have "48 + n mod 10 < 0xD800" by simp
    from small_not_surrogate [OF this] False 1 show ?thesis
      by (subst digits.simps) simp
  qed
qed

lemma noSurrogate_numberToString: "noSurrogate (numberToString i)"
  by (simp add: numberToString_def noSurrogate_digits ch_not_surrogate del: ch_Char)

lemma noSurrogate_Object_prototype:
  "list_all (\<lambda>kv. noSurrogate (snd kv)) Object_prototype"
  by (simp add: Object_prototype_def nativeFunction_def del: js_Cons)

lemma noSurrogate_lookup_or:
  assumes "list_all (\<lambda>kv. noSurrogate (snd kv)) table" and "noSurrogate fallback"
  shows "noSurrogate (lookup_or table key fallback)"
proof (cases "map_of table key")
  case None
  show ?thesis
  proof (cases "map_of Object_prototype key")
    case none: None
    with None assms(2) show ?thesis by (simp add: lookup_or_def)
  next
    case (Some shown)
    then have "(key, shown) \<in> set Object_prototype" by (rule map_of_SomeD)
    with noSurrogate_Object_prototype have "noSurrogate shown"
      by (auto simp: list_all_iff)
    with None Some show ?thesis by (simp add: lookup_or_def)
  qed
next
  case (Some label)
  then have "(key, label) \<in> set table" by (rule map_of_SomeD)
  with assms(1) have "noSurrogate label" by (auto simp: list_all_iff)
  with Some assms(2) show ?thesis by (simp add: lookup_or_def)
qed

lemma noSurrogate_labels:
  "noSurrogate (lookup_or MODEL_LABELS k (js fb))"
  "noSurrogate (lookup_or WORKFLOW_LABELS k (js fb))"
  by (rule noSurrogate_lookup_or; simp add: MODEL_LABELS_def WORKFLOW_LABELS_def del: js_Cons)+

lemma noSurrogate_svg: "noSurrogate svg_before" "noSurrogate svg_after"
  by (simp_all add: svg_before_def svg_after_def del: js_Cons)

lemma isWellFormed_previewText:
  "isWellFormed (previewText e p) = (isWellFormed p \<and> isWellFormed (documentInfo_textContent e))"
proof -
  define header where "header =
     js ''Model: '' @ lookup_or MODEL_LABELS (modelPicker_value e) (js ''Custom model'')
     @ js ''\<newline>Workflow: '' @ lookup_or WORKFLOW_LABELS (workflowPicker_value e) (js ''Workflow'')
     @ js ''\<newline>Strength: '' @ numberToString (strengthSlider_value e) @ js ''%''
     @ js ''\<newline>Preserve Subject: '' @ (if seamlessSwitch_checked e then js ''Yes'' else js ''No'')
     @ js ''\<newline>Respect Mask: '' @ (if maskSwitch_checked e then js ''Yes'' else js ''No'')
     @ js ''\<newline>Prompt: ''"
  have h: "noSurrogate header"
    by (simp add: header_def noSurrogate_labels noSurrogate_numberToString del: js_Cons)
  have "previewText e p = header @ (p @ ch CHR ''\<newline>'' # documentInfo_textContent e)"
    by (simp add: previewText_def header_def del: ch_Char)
  then show ?thesis
    by (simp add: isWellFormed_prefix_noSurrogate [OF h] isWellFormed_separated
        ch_not_surrogate del: ch_Char)
qed

lemma simulatePreview_throws_iff:
  "isl (simulatePreview e p) = (\<not> (isWellFormed p \<and> isWellFormed (documentInfo_textContent e)))"
proof -
  have "isl (simulatePreview e p)
        = isl (encodeURIComponent (svg_before @ escapeHtml (previewText e p) @ svg_after))"
    by (simp add: simulatePreview_def Let_def split: sum.splits)
  also have "\<dots> = (\<not> isWellFormed (escapeHtml (previewText e p)))"
    by (simp add: encodeURIComponent_fails_iff isWellFormed_prefix_noSurrogate
        isWellFormed_suffix_noSurrogate noSurrogate_svg)
  finally show ?thesis
    by (simp add: isWellFormed_escapeHtml isWellFormed_previewText)
qed

lemma simulatePreview_error: "simulatePreview e p = Inl err \<Longrightarrow> err = URIError"
  by (auto simp: simulatePreview_def Let_def split: sum.splits dest: encodeURIComponent_error)

lemma simulatePreview_resolves_iff:
  "(\<exists>previewUrl. simulatePreview e p = Inr previewUrl)
   = (isWellFormed p \<and> isWellFormed (documentInfo_textContent e))"
  using simulatePreview_throws_iff [of e p]
  by (cases "simulatePreview e p") simp_all

lemma simulatePreview_reads_inputs:
  "simulatePreview
     ((setStatus (setProcessing pv e b) status msg)
        \<lparr>previewPlaceholder_hidden := x, previewPlaceholder_textContent := y,
         previewImage_hidden := z\<rparr>) p
   = simulatePreview e p"
  by (simp add: simulatePreview_def previewText_def setStatus_def setProcessing_def Let_def)

lemma numberToString_40: "numberToString 40 = js ''40''"
  by (simp add: numberToString_def digits.simps)

lemma previewText_scenario:
  assumes "modelPicker_value e = js ''grok''" and "workflowPicker_value e = js ''edit''"
    and "strengthSlider_value e = 40"
  shows "\<exists>rest. previewText e p =
     js ''Model: xAI Grok'' @ js ''\<newline>'' @ js ''Workflow: Edit current selection''
     @ js ''\<newline>'' @ js ''Strength: 40%'' @ rest"
  using assms
  by (simp add: previewText_def lookup_or_def MODEL_LABELS_def WORKFLOW_LABELS_def
      numberToString_40)

lemma escapeHtml_scenario_lines:
  "escapeHtml (js ''Model: xAI Grok'' @ js ''\<newline>'' @ js ''Workflow: Edit current selection''
     @ js ''\<newline>'' @ js ''Strength: 40%'')
   = js ''Model: xAI Grok'' @ js ''\<newline>'' @ js ''Workflow: Edit current selection''
     @ js ''\<newline>'' @ js ''Strength: 40%''"
  by (simp add: escapeHtml_def)

lemma ascii_svg_before: "list_all (\<lambda>c. c < 0x80) svg_before"
  by (simp add: svg_before_def)

lemma ascii_scenario_lines:
  "list_all (\<lambda>c. c < 0x80)
     (js ''Model: xAI Grok'' @ js ''\<newline>'' @ js ''Workflow: Edit current selection''
      @ js ''\<newline>'' @ js ''Strength: 40%'')"
  by simp

section \<open>The handlers, path by path\<close>

lemma setStatus_status [simp]:
  "statusText_status (setStatus e status msg) = status"
  "statusText_textContent (setStatus e status msg) = msg"
  by (simp_all add: setStatus_def)

lemma setProcessing_status [simp]:
  "statusText_status (setProcessing pv e b) = statusText_status e"
  "statusText_textContent (setProcessing pv e b) = statusText_textContent e"
  by (simp_all add: setProcessing_def Let_def)

lemma generateFailed_status [simp]:
  "statusText_status (generateFailed pv e err) = js ''error''"
  "statusText_textContent (generateFailed pv e err) = js ''Preview failed: '' @ message err"
  by (simp_all add: generateFailed_def)

lemma updateDocumentInfo_fields [simp]:
  "state_preview (updateDocumentInfo h s) = state_preview s"
  "trace (updateDocumentInfo h s) = trace s @ UpdateDocumentInfo # snd (fetchDocumentSummary h)"
  "statusText_status (els (updateDocumentInfo h s)) = statusText_status (els s)"
  "statusText_textContent (els (updateDocumentInfo h s)) = statusText_textContent (els s)"
  by (simp_all add: updateDocumentInfo_def Let_def split_def)

lemma fetchDocumentSummary_calls:
  "snd (fetchDocumentSummary h) = [FetchDocumentSummary]
   \<or> snd (fetchDocumentSummary h) = [FetchDocumentSummary, BatchPlay]"
  by (simp add: fetchDocumentSummary_def Let_def split: sum.splits)

lemma applyEdit_inputs:
  assumes "configurationSnapshot e = configurationSnapshot e'"
    and "promptInput_value e = promptInput_value e'"
  shows "configurationSnapshot (applyEdit e x) = configurationSnapshot (applyEdit e' x)
    \<and> promptInput_value (applyEdit e x) = promptInput_value (applyEdit e' x)"
  using assms by (cases x) (simp_all add: configurationSnapshot_def)

lemma foldl_applyEdit_inputs:
  assumes "configurationSnapshot e = configurationSnapshot e'"
    and "promptInput_value e = promptInput_value e'"
  shows "configurationSnapshot (foldl applyEdit e xs) = configurationSnapshot (foldl applyEdit e' xs)"
  using assms
proof (induction xs arbitrary: e e')
  case Nil
  then show ?case by simp
next
  case (Cons x xs)
  from applyEdit_inputs [OF Cons.prems, of x]
  have a: "configurationSnapshot (applyEdit e x) = configurationSnapshot (applyEdit e' x)"
    and b: "promptInput_value (applyEdit e x) = promptInput_value (applyEdit e' x)"
    by blast+
  from Cons.IH [OF a b] show ?case by simp
qed

lemma foldl_applyEdit_panel:
  "configurationSnapshot
     (foldl applyEdit
        ((setStatus (setProcessing pv e b) status msg)
           \<lparr>previewPlaceholder_hidden := x, previewPlaceholder_textContent := y,
            previewImage_hidden := z\<rparr>) xs)
   = configurationSnapshot (foldl applyEdit e xs)"
  by (rule foldl_applyEdit_inputs)
     (simp_all add: configurationSnapshot_def setStatus_def setProcessing_def Let_def)

lemma snapshot_fields:
  assumes "configurationSnapshot e = configurationSnapshot e'"
  shows "modelPicker_value e = modelPicker_value e'"
    and "workflowPicker_value e = workflowPicker_value e'"
    and "strengthSlider_value e = strengthSlider_value e'"
    and "seamlessSwitch_checked e = seamlessSwitch_checked e'"
    and "maskSwitch_checked e = maskSwitch_checked e'"
  using assms by (simp_all add: configurationSnapshot_def)

lemmas foldl_applyEdit_panel_fields = snapshot_fields [OF foldl_applyEdit_panel]

lemma handleGenerate_blank:
  assumes "trim (promptInput_value (els s)) = []"
  shows "statusText_status (els (handleGenerate h inflight s)) = js ''warning''"
  using assms by (simp add: handleGenerate_def)

lemma handleGenerate_throws:
  assumes "trim (promptInput_value (els s)) \<noteq> []"
    and "simulatePreview (els s) (trim (promptInput_value (els s))) = Inl err"
  shows "state_preview (handleGenerate h inflight s) = state_preview s"
    and "statusText_status (els (handleGenerate h inflight s)) = js ''error''"
    and "statusText_textContent (els (handleGenerate h inflight s))
          = js ''Preview failed: '' @ message err"
  using assms
  by (simp_all add: handleGenerate_def Let_def split_def simulatePreview_reads_inputs)

lemma handleGenerate_rejects:
  assumes "trim (promptInput_value (els s)) \<noteq> []"
    and "simulatePreview (els s) (trim (promptInput_value (els s))) = Inr previewUrl"
    and "fst (fetchDocumentSummary h) = Inl err"
  shows "state_preview (handleGenerate h inflight s) = state_preview s"
    and "statusText_status (els (handleGenerate h inflight s)) = js ''error''"
    and "statusText_textContent (els (handleGenerate h inflight s))
          = js ''Preview failed: '' @ message err"
  using assms
  by (simp_all add: handleGenerate_def Let_def split_def simulatePreview_reads_inputs)

lemma handleGenerate_succeeds:
  assumes "trim (promptInput_value (els s)) \<noteq> []"
    and "simulatePreview (els s) (trim (promptInput_value (els s))) = Inr previewUrl"
    and "fst (fetchDocumentSummary h) = Inr summary"
  shows "\<exists>pv. state_preview (handleGenerate h inflight s) = Some pv
           \<and> url pv = previewUrl \<and> documentSummary pv = summary
           \<and> storedSnapshot pv =
               (trim (promptInput_value (els s)),
                snd (configurationSnapshot (foldl applyEdit (els s) inflight)))"
    and "statusText_status (els (handleGenerate h inflight s)) = js ''success''"
  using assms
  by (simp_all add: handleGenerate_def Let_def split_def simulatePreview_reads_inputs
      foldl_applyEdit_panel_fields storedSnapshot_def configurationSnapshot_def)

lemma handleGenerate_snapshot_without_edits:
  assumes "trim (promptInput_value (els s)) \<noteq> []"
    and "simulatePreview (els s) (trim (promptInput_value (els s))) = Inr previewUrl"
    and "fst (fetchDocumentSummary h) = Inr summary"
  shows "map_option storedSnapshot (state_preview (handleGenerate h [] s))
         = Some (configurationSnapshot (els s))"
proof -
  from handleGenerate_succeeds(1) [OF assms, of "[]"]
  obtain pv where "state_preview (handleGenerate h [] s) = Some pv"
    and "storedSnapshot pv
         = (trim (promptInput_value (els s)), snd (configurationSnapshot (els s)))"
    by auto
  then show ?thesis
    by (simp add: configurationSnapshot_def)
qed

section \<open>The scenarios\<close>

lemma layerName_inherited_key:
  "layerName (scenario_preview\<lparr>model := js ''constructor''\<rparr>)
   = js ''function Object() { [native code] } '' @ [0x2022] @ js '' edit''"
  by (simp add: layerName_def lookup_or_def MODEL_LABELS_def Object_prototype_def
      nativeFunction_def scenario_preview_def)

lemma layerName_unknown_key:
  "layerName (scenario_preview\<lparr>model := js ''dalle''\<rparr>) = js ''AI '' @ [0x2022] @ js '' edit''"
  by (simp add: layerName_def lookup_or_def MODEL_LABELS_def Object_prototype_def
      nativeFunction_def scenario_preview_def)

lemma scenario_prompt:
  "trim (promptInput_value scenario_elements) = js ''a red fox in snow''"
  by (simp add: scenario_elements_def trim_def isWhiteSpace_def)

lemma scenario_well_formed:
  "isWellFormed (promptInput_value scenario_elements)"
  "isWellFormed (documentInfo_textContent scenario_elements)"
  by (simp_all add: scenario_elements_def noSurrogate_isWellFormed del: js_Cons)

lemma document_session_fields:
  "modelPicker_value (els document_session) = js ''grok''"
  "workflowPicker_value (els document_session) = js ''edit''"
  "strengthSlider_value (els document_session) = 40"
  "promptInput_value (els document_session) = js ''a red fox in snow''"
  "state_preview document_session = None"
  by (simp_all add: document_session_def updateDocumentInfo_def split_def Let_def
      scenario_session_def scenario_elements_def)

lemma document_session_readout:
  "documentInfo_textContent (els document_session)
   = js ''fox.psd'' @ js ''\<newline>'' @ js ''1024 px '' @ [0xD7] @ js '' 768 px''
     @ js ''\<newline>'' @ js ''1 layers'' @ js ''\<newline>'' @ js ''72 ppi''"
  by (simp add: document_session_def updateDocumentInfo_def split_def Let_def
      fetchDocumentSummary_def open_document_def or_else_def formatDocumentSummary_def
      numberToString_def digits.simps)

lemma document_session_well_formed:
  "isWellFormed (documentInfo_textContent (els document_session))"
  unfolding document_session_readout
  by (rule noSurrogate_isWellFormed)
     (simp add: isHighSurrogate_def isLowSurrogate_def del: js_Cons)

section \<open>Claims\<close>

text \<open>
  C1 fails on the code. In the scenario of the specification the user switches the model
  picker from \<open>grok\<close> to \<open>qwen\<close> while the request is awaited. The generate succeeds; the
  stored prompt and artifact are those of the click, but the stored model is \<open>qwen\<close>, so
  the stored snapshot is not the snapshot of the inputs at the click.
\<close>

theorem handleGenerate_snapshot_drifts:
  "\<exists>pv. state_preview (handleGenerate no_document [EditModel (js ''qwen'')] scenario_session) = Some pv
     \<and> simulatePreview (els scenario_session) (js ''a red fox in snow'') = Inr (url pv)
     \<and> storedSnapshot pv = (js ''a red fox in snow'', js ''qwen'', js ''edit'', 40, True, False)
     \<and> configurationSnapshot (els scenario_session)
         = (js ''a red fox in snow'', js ''grok'', js ''edit'', 40, True, False)
     \<and> storedSnapshot pv \<noteq> configurationSnapshot (els scenario_session)"
proof -
  have e: "els scenario_session = scenario_elements"
    by (simp add: scenario_session_def)
  have t: "trim (promptInput_value (els scenario_session)) = js ''a red fox in snow''"
    by (simp only: e scenario_prompt)
  have nb: "trim (promptInput_value (els scenario_session)) \<noteq> []"
    by (simp add: t)
  have "\<exists>previewUrl. simulatePreview (els scenario_session)
        (trim (promptInput_value (els scenario_session))) = Inr previewUrl"
    unfolding simulatePreview_resolves_iff isWellFormed_trim
    by (simp add: e scenario_well_formed)
  then obtain previewUrl
    where sim: "simulatePreview (els scenario_session)
        (trim (promptInput_value (els scenario_session))) = Inr previewUrl"
    by blast
  have f: "fst (fetchDocumentSummary no_document) = Inr None"
    by (simp add: fetchDocumentSummary_def no_document_def)
  have c: "configurationSnapshot (els scenario_session)
         = (js ''a red fox in snow'', js ''grok'', js ''edit'', 40, True, False)"
    unfolding configurationSnapshot_def t
    by (simp add: e scenario_elements_def)
  have d: "snd (configurationSnapshot (foldl applyEdit (els scenario_session) [EditModel (js ''qwen'')]))
      = (js ''qwen'', js ''edit'', 40, True, False)"
    by (simp add: configurationSnapshot_def e scenario_elements_def)
  from handleGenerate_succeeds(1) [OF nb sim f, of "[EditModel (js ''qwen'')]"]
  obtain pv where pv: "state_preview (handleGenerate no_document [EditModel (js ''qwen'')] scenario_session) = Some pv"
    and u: "url pv = previewUrl"
    and st: "storedSnapshot pv = (js ''a red fox in snow'', js ''qwen'', js ''edit'', 40, True, False)"
    unfolding d t by blast
  have "storedSnapshot pv \<noteq> configurationSnapshot (els scenario_session)"
    unfolding st c by simp
  with pv u st c sim t show ?thesis
    by (intro exI [of _ pv]) simp
qed




text \<open>
  C3: when the prompt is empty or consists of white space only, a generate request
  makes no call at all (neither \<open>fetchDocumentSummary\<close> nor \<open>simulatePreview\<close> appears in
  the trace), leaves the Preview Record as it was, and changes nothing in the panel but
  the status line, which shows a warning: the busy indicators stay as they were, so the
  workflow stays idle.
\<close>

theorem handleGenerate_blank_prompt:
  assumes "list_all isWhiteSpace (promptInput_value (els s))"
  shows "trace (handleGenerate h inflight s) = trace s
    \<and> state_preview (handleGenerate h inflight s) = state_preview s
    \<and> statusText_status (els (handleGenerate h inflight s)) = js ''warning''
    \<and> els (handleGenerate h inflight s) =
        (els s)\<lparr>statusText_textContent := js ''Please enter a prompt before generating a preview.'',
                 statusText_status := js ''warning''\<rparr>"
proof -
  from assms have "trim (promptInput_value (els s)) = []"
    by (simp add: trim_empty_iff)
  then show ?thesis
    by (simp add: handleGenerate_def setStatus_def)
qed

theorem handleGenerate_blank_prompt_witness:
  "list_all isWhiteSpace (promptInput_value (els blank_prompt_session))
   \<and> trace (handleGenerate open_document [] blank_prompt_session) = []
   \<and> state_preview (handleGenerate open_document [] blank_prompt_session) = None
   \<and> statusText_status (els (handleGenerate open_document [] blank_prompt_session)) = js ''warning''"
proof -
  have blank: "list_all isWhiteSpace (promptInput_value (els blank_prompt_session))"
    by (simp add: blank_prompt_session_def isWhiteSpace_def)
  from handleGenerate_blank_prompt [OF blank, of open_document "[]"] blank
  show ?thesis
    by (simp add: blank_prompt_session_def scenario_session_def)
qed

text \<open>
  C4: for every string, unescaping the five entities in the output of \<open>escapeHtml\<close>
  gives the string back, also when the string already holds entity-like text such as
  \<open>&lt;\<close>; and the output holds none of the raw characters \<open><\<close>, \<open>>\<close>, double quote
  and single quote (an ampersand occurs in it only as the start of an entity).
\<close>

theorem escapeHtml_round_trip:
  "unescapeEntities (escapeHtml str) = str
   \<and> set (escapeHtml str) \<inter> {0x3C, 0x3E, 0x22, 0x27} = {}"
proof
  show "unescapeEntities (escapeHtml str) = str"
  proof (induction str)
    case Nil
    show ?case by simp
  next
    case (Cons x xs)
    have "unescapeEntities (escapeHtml (x # xs)) = x # unescapeEntities (escapeHtml xs)"
      by (subst escapeHtml_Cons) (rule unescapeEntities_escaped_Cons)
    with Cons show ?case by simp
  qed
  show "set (escapeHtml str) \<inter> {0x3C, 0x3E, 0x22, 0x27} = {}"
    by (rule escapeHtml_no_raw)
qed

text \<open>
  C5: an apply request made while no Preview Record is held, or while the host reports
  no open document, is answered with a warning and nothing else: the handler returns
  normally, makes no call (so no host mutation is attempted), leaves the Preview Record
  as it was, and changes nothing in the panel but the status line.
\<close>

theorem handleApply_rejected:
  assumes "state_preview s = None \<or> documents_length h = Inr 0"
  shows "\<exists>s' msg. handleApply h h' s = Inr s'
    \<and> trace s' = trace s
    \<and> state_preview s' = state_preview s
    \<and> els s' = (els s)\<lparr>statusText_textContent := msg, statusText_status := js ''warning''\<rparr>"
proof (cases "state_preview s")
  case None
  then show ?thesis
    by (simp add: handleApply_def setStatus_def) (rule exI, rule refl)
next
  case (Some pv)
  with assms have "documents_length h = Inr 0" by simp
  with Some show ?thesis
    by (simp add: handleApply_def setStatus_def) (rule exI, rule refl)
qed

theorem handleApply_rejected_witness:
  "(state_preview scenario_session = None \<or> documents_length open_document = Inr 0)
   \<and> (state_preview preview_ready = None \<or> documents_length no_document = Inr 0)
   \<and> (\<exists>s' msg. handleApply open_document open_document scenario_session = Inr s'
        \<and> trace s' = trace scenario_session
        \<and> state_preview s' = state_preview scenario_session
        \<and> els s' = (els scenario_session)\<lparr>statusText_textContent := msg, statusText_status := js ''warning''\<rparr>)
   \<and> (\<exists>s' msg. handleApply no_document no_document preview_ready = Inr s'
        \<and> trace s' = trace preview_ready
        \<and> state_preview s' = state_preview preview_ready
        \<and> els s' = (els preview_ready)\<lparr>statusText_textContent := msg, statusText_status := js ''warning''\<rparr>)"
proof -
  have a: "state_preview scenario_session = None \<or> documents_length open_document = Inr 0"
    by (simp add: scenario_session_def)
  have b: "state_preview preview_ready = None \<or> documents_length no_document = Inr 0"
    by (simp add: no_document_def)
  from a b handleApply_rejected [OF a, of open_document] handleApply_rejected [OF b, of no_document]
  show ?thesis by blast
qed

text \<open>
  C6: in a generate attempt (the trimmed prompt is not empty) in which
  \<open>fetchDocumentSummary\<close> rejects or \<open>simulatePreview\<close> throws, the Preview Record
  afterwards is the one held before, whatever the user edits meanwhile, and the status
  line shows an error whose message is "Preview failed: " followed by the message of one
  of the failures.
\<close>

theorem handleGenerate_failure_keeps_preview:
  assumes "trim (promptInput_value (els s)) \<noteq> []"
    and "isl (fst (fetchDocumentSummary h))
         \<or> isl (simulatePreview (els s) (trim (promptInput_value (els s))))"
  shows "state_preview (handleGenerate h inflight s) = state_preview s
    \<and> statusText_status (els (handleGenerate h inflight s)) = js ''error''
    \<and> (\<exists>err. (fst (fetchDocumentSummary h) = Inl err
               \<or> simulatePreview (els s) (trim (promptInput_value (els s))) = Inl err)
          \<and> statusText_textContent (els (handleGenerate h inflight s))
              = js ''Preview failed: '' @ message err)"
proof (cases "simulatePreview (els s) (trim (promptInput_value (els s)))")
  case (Inl err)
  with assms(1) show ?thesis
    by (simp add: handleGenerate_def Let_def split_def simulatePreview_reads_inputs) blast
next
  case (Inr previewUrl)
  with assms(2) obtain err where "fst (fetchDocumentSummary h) = Inl err"
    by (cases "fst (fetchDocumentSummary h)") auto
  with Inr assms(1) show ?thesis
    by (simp add: handleGenerate_def Let_def split_def simulatePreview_reads_inputs)
qed

theorem handleGenerate_failure_keeps_preview_witness:
  "trim (promptInput_value (els preview_ready)) \<noteq> []
   \<and> isl (fst (fetchDocumentSummary (open_document\<lparr>documents_length := Inl host_failure\<rparr>)))
   \<and> state_preview (handleGenerate (open_document\<lparr>documents_length := Inl host_failure\<rparr>) [EditModel (js ''qwen'')] preview_ready)
       = Some scenario_preview
   \<and> statusText_status (els (handleGenerate (open_document\<lparr>documents_length := Inl host_failure\<rparr>) [EditModel (js ''qwen'')] preview_ready))
       = js ''error''"
proof -
  have a: "trim (promptInput_value (els preview_ready)) \<noteq> []"
    by (simp add: preview_ready_def scenario_elements_def trim_def isWhiteSpace_def)
  have b: "isl (fst (fetchDocumentSummary (open_document\<lparr>documents_length := Inl host_failure\<rparr>)))"
    by (simp add: fetchDocumentSummary_def)
  have c: "state_preview preview_ready = Some scenario_preview"
    by (simp add: preview_ready_def)
  from handleGenerate_failure_keeps_preview [OF a disjI1 [OF b], of "[EditModel (js ''qwen'')]"] a b c
  show ?thesis by simp
qed



text \<open>
  C8: an apply request that passes validation (a Preview Record is held and the host
  reports an open document) returns normally and is followed by exactly one refresh of
  the document readout, whether the modal scope was refused, the layer creation failed,
  or the layer was created: after the calls of the mutation the trace holds one
  \<open>updateDocumentInfo\<close> with its one \<open>fetchDocumentSummary\<close>, and the readout shows what
  that refresh read.
\<close>

theorem handleApply_refreshes_once:
  assumes "state_preview s = Some pv" and "documents_length h = Inr (Suc n)"
  shows "\<exists>s'. handleApply h h' s = Inr s'
    \<and> count_list (drop (length (trace s)) (trace s')) UpdateDocumentInfo = 1
    \<and> count_list (drop (length (trace s)) (trace s')) FetchDocumentSummary = 1
    \<and> (\<exists>calls. trace s' = trace s @ calls @ UpdateDocumentInfo # snd (fetchDocumentSummary h')
          \<and> set calls \<subseteq> {ExecuteAsModal (js ''AI Placeholder Layer''), CreateLayer (layerName pv)})
    \<and> documentInfo_textContent (els s') = documentInfo_textContent (els (updateDocumentInfo h' s))"
proof -
  define calls where "calls =
    (case executeAsModal h of
       Some err \<Rightarrow> [ExecuteAsModal (js ''AI Placeholder Layer'')]
     | None \<Rightarrow> [ExecuteAsModal (js ''AI Placeholder Layer''), CreateLayer (layerName pv)])"
  have calls: "set calls \<subseteq> {ExecuteAsModal (js ''AI Placeholder Layer''), CreateLayer (layerName pv)}"
    "count_list calls UpdateDocumentInfo = 0" "count_list calls FetchDocumentSummary = 0"
    by (simp_all add: calls_def split: option.splits)
  obtain s' where s': "handleApply h h' s = Inr s'"
    and tr: "trace s' = trace s @ calls @ UpdateDocumentInfo # snd (fetchDocumentSummary h')"
    and info: "documentInfo_textContent (els s') = documentInfo_textContent (els (updateDocumentInfo h' s))"
    using assms
    by (simp add: handleApply_def Let_def split_def calls_def updateDocumentInfo_def
        split: option.splits)
  from tr have d: "drop (length (trace s)) (trace s') = calls @ UpdateDocumentInfo # snd (fetchDocumentSummary h')"
    by simp
  from fetchDocumentSummary_calls [of h'] calls(2,3)
  have "count_list (calls @ UpdateDocumentInfo # snd (fetchDocumentSummary h')) UpdateDocumentInfo = 1"
    and "count_list (calls @ UpdateDocumentInfo # snd (fetchDocumentSummary h')) FetchDocumentSummary = 1"
    by auto
  with s' tr info d calls(1) show ?thesis
    by (simp del: count_list.simps)
qed

text \<open>
  C8, at a failing mutation: the layer creation throws, the status shows the error, and
  the readout is still refreshed once.
\<close>

theorem handleApply_refreshes_once_witness:
  "state_preview preview_ready = Some scenario_preview
   \<and> documents_length (open_document\<lparr>createLayer := Some host_failure\<rparr>) = Inr (Suc 0)
   \<and> (\<exists>s'. handleApply (open_document\<lparr>createLayer := Some host_failure\<rparr>) open_document preview_ready = Inr s'
        \<and> count_list (drop (length (trace preview_ready)) (trace s')) UpdateDocumentInfo = 1
        \<and> count_list (drop (length (trace preview_ready)) (trace s')) FetchDocumentSummary = 1)"
proof -
  have a: "state_preview preview_ready = Some scenario_preview"
    by (simp add: preview_ready_def)
  have b: "documents_length (open_document\<lparr>createLayer := Some host_failure\<rparr>) = Inr (Suc 0)"
    by (simp add: open_document_def)
  from handleApply_refreshes_once [OF a b, of open_document] a b
  show ?thesis by blast
qed

text \<open>
  C9: with model \<open>grok\<close>, workflow \<open>edit\<close> and strength 40, every artifact that
  \<open>simulatePreview\<close> resolves with can be percent-decoded, and the decoded octets contain
  "Model: xAI Grok", "Workflow: Edit current selection" and "Strength: 40%". There is such
  an artifact whenever the prompt and the document readout are well-formed text.
\<close>

theorem simulatePreview_artifact_text:
  assumes "modelPicker_value e = js ''grok''" and "workflowPicker_value e = js ''edit''"
    and "strengthSlider_value e = 40"
  shows "(simulatePreview e p = Inr previewUrl \<longrightarrow>
          (\<exists>bytes. percentDecode previewUrl = Some bytes
             \<and> sublist (ascii ''Model: xAI Grok'') bytes
             \<and> sublist (ascii ''Workflow: Edit current selection'') bytes
             \<and> sublist (ascii ''Strength: 40%'') bytes))
    \<and> (isWellFormed p \<and> isWellFormed (documentInfo_textContent e) \<longrightarrow>
          (\<exists>artifact. simulatePreview e p = Inr artifact))"
proof (intro conjI impI)
  assume "isWellFormed p \<and> isWellFormed (documentInfo_textContent e)"
  then show "\<exists>artifact. simulatePreview e p = Inr artifact"
    by (simp add: simulatePreview_resolves_iff)
next
  let ?lines = "js ''Model: xAI Grok'' @ js ''\<newline>'' @ js ''Workflow: Edit current selection''
     @ js ''\<newline>'' @ js ''Strength: 40%''"
  assume url: "simulatePreview e p = Inr previewUrl"
  from previewText_scenario [OF assms, of p]
  obtain rest where "previewText e p = ?lines @ rest"
    by auto
  then have svg: "svg_before @ escapeHtml (previewText e p) @ svg_after
      = (svg_before @ ?lines) @ (escapeHtml rest @ svg_after)"
    using escapeHtml_append [of ?lines rest] escapeHtml_scenario_lines by simp
  from url obtain enc
    where enc: "encodeURIComponent (svg_before @ escapeHtml (previewText e p) @ svg_after) = Inr enc"
      and previewUrl: "previewUrl = js ''data:image/svg+xml,'' @ escapeQuotesParens enc"
    by (auto simp: simulatePreview_def Let_def split: sum.splits)
  have "list_all (\<lambda>c. c < 0x80) (svg_before @ ?lines)"
    using ascii_svg_before ascii_scenario_lines by simp
  from encodeURIComponent_ascii_prefix [OF this enc [unfolded svg]]
  obtain tail where "percentDecode (escapeQuotesParens enc)
      = Some (map ucast (svg_before @ ?lines) @ tail)"
    by blast
  then have dec: "percentDecode previewUrl
      = Some (ascii ''data:image/svg+xml,'' @ map ucast svg_before
          @ ascii ''Model: xAI Grok'' @ ascii ''\<newline>''
          @ ascii ''Workflow: Edit current selection'' @ ascii ''\<newline>''
          @ ascii ''Strength: 40%'' @ tail)"
    unfolding previewUrl percentDecode_header
    by (simp add: map_ucast_js del: js_Cons)
  define before where "before = ascii ''data:image/svg+xml,'' @ map ucast svg_before"
  have 1: "sublist (ascii ''Model: xAI Grok'')
      (before @ ascii ''Model: xAI Grok'' @ ascii ''\<newline>''
          @ ascii ''Workflow: Edit current selection'' @ ascii ''\<newline>''
          @ ascii ''Strength: 40%'' @ tail)"
    by (rule sublist_appendI)
  have 2: "sublist (ascii ''Workflow: Edit current selection'')
      ((before @ ascii ''Model: xAI Grok'' @ ascii ''\<newline>'')
          @ ascii ''Workflow: Edit current selection'' @ ascii ''\<newline>''
          @ ascii ''Strength: 40%'' @ tail)"
    by (rule sublist_appendI)
  have 3: "sublist (ascii ''Strength: 40%'')
      ((before @ ascii ''Model: xAI Grok'' @ ascii ''\<newline>''
          @ ascii ''Workflow: Edit current selection'' @ ascii ''\<newline>'')
          @ ascii ''Strength: 40%'' @ tail)"
    by (rule sublist_appendI)
  from dec 1 2 3
  show "\<exists>bytes. percentDecode previewUrl = Some bytes
             \<and> sublist (ascii ''Model: xAI Grok'') bytes
             \<and> sublist (ascii ''Workflow: Edit current selection'') bytes
             \<and> sublist (ascii ''Strength: 40%'') bytes"
    by (simp add: before_def)
qed

text \<open>
  C9 in the scenario of the specification: the document of 1024 by 768 pixels at 72 ppi
  is open, the panel shows its readout, and the generate request stores a Preview Record
  whose artifact decodes to octets with the three lines.
\<close>

theorem simulatePreview_artifact_text_witness:
  "modelPicker_value (els document_session) = js ''grok''
   \<and> workflowPicker_value (els document_session) = js ''edit''
   \<and> strengthSlider_value (els document_session) = 40
   \<and> isWellFormed (js ''a red fox in snow'')
   \<and> isWellFormed (documentInfo_textContent (els document_session))
   \<and> (\<exists>pv bytes. state_preview (handleGenerate open_document [] document_session) = Some pv
        \<and> simulatePreview (els document_session) (js ''a red fox in snow'') = Inr (url pv)
        \<and> percentDecode (url pv) = Some bytes
        \<and> sublist (ascii ''Model: xAI Grok'') bytes
        \<and> sublist (ascii ''Workflow: Edit current selection'') bytes
        \<and> sublist (ascii ''Strength: 40%'') bytes)"
proof -
  have wf: "isWellFormed (js ''a red fox in snow'')"
    by (simp add: noSurrogate_isWellFormed del: js_Cons)
  have t: "trim (promptInput_value (els document_session)) = js ''a red fox in snow''"
    using scenario_prompt by (simp add: document_session_fields scenario_elements_def)
  have nb: "trim (promptInput_value (els document_session)) \<noteq> []"
    unfolding t by simp
  obtain summary where f: "fst (fetchDocumentSummary open_document) = Inr summary"
    by (cases "fst (fetchDocumentSummary open_document)")
       (simp_all add: fetchDocumentSummary_def open_document_def Let_def)
  note claim = simulatePreview_artifact_text
    [OF document_session_fields(1-3), of "js ''a red fox in snow''"]
  from claim wf document_session_well_formed
  obtain previewUrl
    where sim: "simulatePreview (els document_session) (js ''a red fox in snow'') = Inr previewUrl"
    by blast
  with claim [of previewUrl] obtain bytes
    where dec: "percentDecode previewUrl = Some bytes"
      and sub: "sublist (ascii ''Model: xAI Grok'') bytes"
        "sublist (ascii ''Workflow: Edit current selection'') bytes"
        "sublist (ascii ''Strength: 40%'') bytes"
    by blast
  from sim have sim': "simulatePreview (els document_session)
      (trim (promptInput_value (els document_session))) = Inr previewUrl"
    by (simp only: t)
  from handleGenerate_succeeds(1) [OF nb sim' f, of "[]"]
  obtain pv where pv: "state_preview (handleGenerate open_document [] document_session) = Some pv"
    and u: "url pv = previewUrl"
    by blast
  from pv u sim dec sub have "\<exists>pv bytes.
      state_preview (handleGenerate open_document [] document_session) = Some pv
        \<and> simulatePreview (els document_session) (js ''a red fox in snow'') = Inr (url pv)
        \<and> percentDecode (url pv) = Some bytes
        \<and> sublist (ascii ''Model: xAI Grok'') bytes
        \<and> sublist (ascii ''Workflow: Edit current selection'') bytes
        \<and> sublist (ascii ''Strength: 40%'') bytes"
    by blast
  with wf document_session_fields(1-3) document_session_well_formed show ?thesis
    by blast
qed

text \<open>
  C10, as the code has it: \<open>simulatePreview\<close> returns a promise, which then resolves,
  exactly when the prompt it is given and the text of the document readout are
  well-formed UTF-16 (no surrogate outside a pair). For such inputs a generate request
  ends with the error status exactly when the prompt is not blank and
  \<open>fetchDocumentSummary\<close> rejected: the failure branch is reached through the Document
  Inspector only.
\<close>

theorem simulatePreview_resolves_when_well_formed:
  "(\<exists>previewUrl. simulatePreview e p = Inr previewUrl)
     = (isWellFormed p \<and> isWellFormed (documentInfo_textContent e))
   \<and> (isWellFormed (promptInput_value (els s))
        \<and> isWellFormed (documentInfo_textContent (els s)) \<longrightarrow>
       (statusText_status (els (handleGenerate h inflight s)) = js ''error'')
         = (trim (promptInput_value (els s)) \<noteq> [] \<and> isl (fst (fetchDocumentSummary h))))"
proof (intro conjI impI)
  show "(\<exists>previewUrl. simulatePreview e p = Inr previewUrl)
     = (isWellFormed p \<and> isWellFormed (documentInfo_textContent e))"
    by (rule simulatePreview_resolves_iff)
next
  assume wf: "isWellFormed (promptInput_value (els s))
    \<and> isWellFormed (documentInfo_textContent (els s))"
  then obtain previewUrl
    where sim: "simulatePreview (els s) (trim (promptInput_value (els s))) = Inr previewUrl"
    using simulatePreview_resolves_iff [of "els s" "trim (promptInput_value (els s))"]
    by (auto simp: isWellFormed_trim)
  show "(statusText_status (els (handleGenerate h inflight s)) = js ''error'')
         = (trim (promptInput_value (els s)) \<noteq> [] \<and> isl (fst (fetchDocumentSummary h)))"
  proof (cases "trim (promptInput_value (els s)) = []")
    case True
    from handleGenerate_blank [OF True, of h inflight] True show ?thesis
      by simp
  next
    case False
    show ?thesis
    proof (cases "fst (fetchDocumentSummary h)")
      case (Inl err)
      from handleGenerate_rejects(2) [OF False sim Inl, of inflight] False Inl
      show ?thesis by simp
    next
      case (Inr summary)
      from handleGenerate_succeeds(2) [OF False sim Inr, of inflight] False Inr
      show ?thesis by simp
    qed
  qed
qed

theorem simulatePreview_resolves_when_well_formed_witness:
  "isWellFormed (promptInput_value (els scenario_session))
   \<and> isWellFormed (documentInfo_textContent (els scenario_session))
   \<and> (\<exists>previewUrl. simulatePreview scenario_elements (js ''a red fox in snow'') = Inr previewUrl)
   \<and> isl (fst (fetchDocumentSummary failing_inspector))
   \<and> statusText_status (els (handleGenerate failing_inspector [] scenario_session)) = js ''error''
   \<and> statusText_status (els (handleGenerate open_document [] scenario_session)) \<noteq> js ''error''"
proof -
  have wf: "isWellFormed (promptInput_value (els scenario_session))
    \<and> isWellFormed (documentInfo_textContent (els scenario_session))"
    by (simp add: scenario_session_def scenario_well_formed)
  have p: "isWellFormed (js ''a red fox in snow'')"
    by (simp add: noSurrogate_isWellFormed del: js_Cons)
  have t: "trim (promptInput_value (els scenario_session)) \<noteq> []"
    by (simp add: scenario_session_def scenario_prompt)
  have f: "isl (fst (fetchDocumentSummary failing_inspector))"
    "\<not> isl (fst (fetchDocumentSummary open_document))"
    by (simp_all add: fetchDocumentSummary_def failing_inspector_def open_document_def Let_def)
  from wf p t f
    simulatePreview_resolves_when_well_formed
      [of scenario_elements "js ''a red fox in snow''" scenario_session failing_inspector "[]"]
    simulatePreview_resolves_when_well_formed
      [of scenario_elements "js ''a red fox in snow''" scenario_session open_document "[]"]
  show ?thesis
    by (simp add: scenario_session_def scenario_well_formed del: js_Cons)
qed

text \<open>
  C10, as stated, fails: a prompt that is a lone high surrogate makes
  \<open>encodeURIComponent\<close>, and so \<open>simulatePreview\<close>, throw \<open>URIError\<close>; the generate
  request ends in the failure branch although \<open>fetchDocumentSummary\<close> returned normally.
\<close>

theorem simulatePreview_resolves_counterexample:
  "simulatePreview (els lone_surrogate_session)
      (trim (promptInput_value (els lone_surrogate_session))) = Inl URIError
   \<and> fst (fetchDocumentSummary no_document) = Inr None
   \<and> statusText_status (els (handleGenerate no_document [] lone_surrogate_session)) = js ''error''
   \<and> statusText_textContent (els (handleGenerate no_document [] lone_surrogate_session))
       = js ''Preview failed: URI malformed''"
proof -
  have t: "trim (promptInput_value (els lone_surrogate_session)) = [0xD800]"
    by (simp add: lone_surrogate_session_def trim_def isWhiteSpace_def)
  have "\<not> isWellFormed [0xD800]"
    by (simp add: isHighSurrogate_def isLowSurrogate_def)
  then have "isl (simulatePreview (els lone_surrogate_session) [0xD800])"
    by (simp add: simulatePreview_throws_iff)
  then obtain err where "simulatePreview (els lone_surrogate_session) [0xD800] = Inl err"
    by (cases "simulatePreview (els lone_surrogate_session) [0xD800]") simp_all
  with simulatePreview_error [OF this]
  have sim: "simulatePreview (els lone_surrogate_session)
      (trim (promptInput_value (els lone_surrogate_session))) = Inl URIError"
    by (simp add: t)
  have nb: "trim (promptInput_value (els lone_surrogate_session)) \<noteq> []"
    by (simp add: t)
  have f: "fst (fetchDocumentSummary no_document) = Inr None"
    by (simp add: fetchDocumentSummary_def no_document_def)
  have m: "js ''Preview failed: '' @ message URIError = js ''Preview failed: URI malformed''"
    by (simp add: URIError_def)
  from sim f handleGenerate_throws(2,3) [OF nb sim, of no_document "[]"] m
  show ?thesis by simp
qed

end
